theory Spec2Isabelle
  imports Complex_Main "HOL-Library.Word" "HOL-Library.AList" "HOL-Library.List_Lexorder"
    "HOL-Library.Char_ord"
begin

section \<open>The model performance tester: data model\<close>

text \<open>
  A shallow embedding of \<^verbatim>\<open>catboost/tools/model_perftest/lib/main.cpp\<close>.
  \<^verbatim>\<open>size_t\<close> is a 64-bit word, \<^verbatim>\<open>int\<close> a signed 32-bit word. Values of type
  \<^verbatim>\<open>float\<close> and \<^verbatim>\<open>double\<close> are real numbers: the rounding of arithmetic, infinities
  and NaN are outside the model, a constant has the value of its literal in its type. An exception is a value of type \<open>error\<close>; what a function
  has written to its state or to a stream before it throws stays written.
\<close>

type_synonym size_t = "64 word"
type_synonym cint = "32 word"

datatype EPerftestModuleDataLayout = ObjectsFirst | FeaturesFirst

datatype error =
    EmptyPool                 \<comment> \<open>\<^verbatim>\<open>Y_ENSURE(options.BlockSize > 0, "Empty pool")\<close>\<close>
  | EnsureFailed              \<comment> \<open>a failed \<^verbatim>\<open>CB_ENSURE\<close>\<close>
  | KeyNotFound string        \<comment> \<open>\<^verbatim>\<open>TMap::at\<close> on a missing key\<close>
  | OutOfBounds               \<comment> \<open>a read outside the storage (undefined behaviour in C++)\<close>
  | EmptyTimes                \<comment> \<open>\<^verbatim>\<open>*MinElement\<close> of an empty range (undefined behaviour)\<close>

text \<open>A line of \<^verbatim>\<open>Cerr\<close>.\<close>

datatype cerr_line =
    LabeledDump size_t nat real real real
      \<comment> \<open>blockId, i, blockResult[i], ref[i], blockResult[i] - ref[i]\<close>
  | FailedToConstruct string string
      \<comment> \<open>"Failed to construct module " key " got error: " message\<close>
  | ExceptionMessage error
      \<comment> \<open>\<^verbatim>\<open>CurrentExceptionMessage()\<close> printed by \<^verbatim>\<open>main\<close>\<close>

subsection \<open>TTimingResult\<close>

record TTimingResult =
  Times :: "real list"

definition NewTimingResult :: TTimingResult where
  "NewTimingResult = \<lparr>Times = []\<rparr>"

definition Add :: "real \<Rightarrow> TTimingResult \<Rightarrow> TTimingResult" where
  "Add val t = t\<lparr>Times := Times t @ [val]\<rparr>"

fun MinElement :: "real list \<Rightarrow> error + real" where
  "MinElement [] = Inl EmptyTimes"
| "MinElement (x # xs) = Inr (fold (\<lambda>y m. if y < m then y else m) xs x)"

fun MaxElement :: "real list \<Rightarrow> error + real" where
  "MaxElement [] = Inl EmptyTimes"
| "MaxElement (x # xs) = Inr (fold (\<lambda>y m. if m < y then y else m) xs x)"

definition Min_time :: "TTimingResult \<Rightarrow> error + real" where
  "Min_time t = MinElement (Times t)"

definition Max_time :: "TTimingResult \<Rightarrow> error + real" where
  "Max_time t = MaxElement (Times t)"

definition Mean :: "TTimingResult \<Rightarrow> real" where
  \<comment> \<open>On no samples C++ yields NaN (0.0 / 0); the real quotient is 0 there.\<close>
  "Mean t = fold (\<lambda>x sum. sum + x) (Times t) 0 / real (length (Times t))"

subsection \<open>TCanonData\<close>

definition Epsilon :: real where
  \<comment> \<open>\<^verbatim>\<open>static constexpr float Epsilon = 1e-6\<close>: the single-precision number nearest to
      \<open>1e-6\<close>, with bits \<open>0x358637BD\<close>, that is \<open>8796093 / 2 ^ 43\<close>, a little below
      \<open>1e-6\<close>\<close>
  "Epsilon = 8796093 / 2 ^ 43"

record TCanonData =
  CanonResults :: "real list list"

definition NewCanonData :: "size_t \<Rightarrow> TCanonData" where
  "NewCanonData blockCount = \<lparr>CanonResults = replicate (unat blockCount) []\<rparr>"

text \<open>
  The comparison loop of \<^verbatim>\<open>CheckOrSet\<close>, from index \<open>i\<close> on; it returns the lines
  written to \<^verbatim>\<open>Cerr\<close>. The caller has checked that both vectors have the same size.
\<close>

function compareFrom :: "size_t \<Rightarrow> real list \<Rightarrow> real list \<Rightarrow> nat \<Rightarrow> cerr_line list" where
  "compareFrom blockId blockResult ref i =
     (if i < length blockResult
      then (if \<bar>blockResult ! i - ref ! i\<bar> > Epsilon
            then [LabeledDump blockId i (blockResult ! i) (ref ! i) (blockResult ! i - ref ! i)]
            else [])
           @ compareFrom blockId blockResult ref (i + 1)
      else [])"
  by pat_completeness auto
termination
  by (relation "measure (\<lambda>(blockId, blockResult, ref, i). length blockResult - i)") auto

declare compareFrom.simps [simp del]

text \<open>
  \<^verbatim>\<open>CheckOrSet\<close> returns the exception thrown (if any), the validator after the call and
  the lines written to \<^verbatim>\<open>Cerr\<close>. \<^verbatim>\<open>Results[blockId]\<close> with \<open>blockId\<close> outside the
  vector is undefined behaviour in C++: the model fails with \<open>OutOfBounds\<close>.
\<close>

definition CheckOrSet ::
  "size_t \<Rightarrow> real list \<Rightarrow> TCanonData \<Rightarrow> error option \<times> TCanonData \<times> cerr_line list" where
  "CheckOrSet blockId blockResult c =
     (if \<not> unat blockId < length (CanonResults c) then (Some OutOfBounds, c, [])
      else
        let c' = (if CanonResults c ! unat blockId = []
                  then c\<lparr>CanonResults := (CanonResults c)[unat blockId := blockResult]\<rparr>
                  else c);
            ref = CanonResults c' ! unat blockId
        in if \<not> length blockResult = length ref then (Some EnsureFailed, c', [])
           else (None, c', compareFrom blockId blockResult ref 0))"

subsection \<open>TResults\<close>

text \<open>
  \<^verbatim>\<open>TMap<TString, THolder<TTimingResult>>\<close> is a list of entries in ascending key order.
  \<^verbatim>\<open>UpdateResult\<close> finds the entry of \<open>name\<close> or inserts a new one at its place in the
  order (the holder that \<^verbatim>\<open>Results[name]\<close> creates is null only until the next
  statement fills it), then adds the sample.
\<close>

record TResults =
  Results :: "(string \<times> TTimingResult) list"
  BaseResultName :: string

definition NewResults :: TResults where
  "NewResults = \<lparr>Results = [], BaseResultName = []\<rparr>"

fun UpdateEntries ::
  "string \<Rightarrow> real \<Rightarrow> (string \<times> TTimingResult) list \<Rightarrow> (string \<times> TTimingResult) list" where
  "UpdateEntries name time [] = [(name, Add time NewTimingResult)]"
| "UpdateEntries name time ((key, value) # rest) =
     (if name = key then (key, Add time value) # rest
      else if name < key then (name, Add time NewTimingResult) # (key, value) # rest
      else (key, value) # UpdateEntries name time rest)"

definition UpdateResult :: "string \<Rightarrow> real \<Rightarrow> TResults \<Rightarrow> TResults" where
  "UpdateResult name time r = r\<lparr>Results := UpdateEntries name time (Results r)\<rparr>"

text \<open>The lines of \<^verbatim>\<open>CATBOOST_INFO_LOG\<close> and the JSON document of the report.\<close>

datatype log_line =
    Header                              \<comment> \<open>"name\tvalue\tdiff"\<close>
  | NameLine string                     \<comment> \<open>name "\t"\<close>
  | StatLine string real "real option"  \<comment> \<open>label "\t" value, then "\t" ratio when a reference is given\<close>

record json_stats =
  json_min :: real
  json_max :: real
  json_mean :: real

type_synonym json_value = "(string \<times> json_stats) list"

definition bind_err :: "error + 'a \<Rightarrow> ('a \<Rightarrow> error + 'b) \<Rightarrow> error + 'b" where
  "bind_err r f = (case r of Inl e \<Rightarrow> Inl e | Inr x \<Rightarrow> f x)"

definition ratio_to ::
  "(TTimingResult \<Rightarrow> error + real) \<Rightarrow> real \<Rightarrow> TTimingResult option \<Rightarrow> error + real option" where
  "ratio_to stat mine ref =
     (case ref of None \<Rightarrow> Inr None
      | Some r \<Rightarrow> bind_err (stat r) (\<lambda>theirs. Inr (Some (mine / theirs))))"

definition Output :: "TTimingResult \<Rightarrow> TTimingResult option \<Rightarrow> error + log_line list" where
  "Output t ref =
     bind_err (Min_time t) (\<lambda>myMin.
     bind_err (ratio_to Min_time myMin ref) (\<lambda>minRatio.
     bind_err (Max_time t) (\<lambda>myMax.
     bind_err (ratio_to Max_time myMax ref) (\<lambda>maxRatio.
     bind_err (ratio_to (\<lambda>r. Inr (Mean r)) (Mean t) ref) (\<lambda>meanRatio.
       Inr [StatLine ''min:'' myMin minRatio,
            StatLine ''max:'' myMax maxRatio,
            StatLine ''mean:'' (Mean t) meanRatio])))))"

definition GetJsonValue :: "TTimingResult \<Rightarrow> error + json_stats" where
  "GetJsonValue t =
     bind_err (Min_time t) (\<lambda>mn.
     bind_err (Max_time t) (\<lambda>mx.
       Inr \<lparr>json_min = mn, json_max = mx, json_mean = Mean t\<rparr>))"

text \<open>
  What \<^verbatim>\<open>OutputResults\<close> leaves behind: the exception that ended it (if any), the
  lines logged and the file \<^verbatim>\<open>results.json\<close> (\<open>None\<close>: not written).
\<close>

record report =
  Thrown :: "error option"
  InfoLog :: "log_line list"
  ResultsFile :: "json_value option"

text \<open>The loop of \<^verbatim>\<open>OutputResults\<close> over the entries other than the baseline.\<close>

fun outputOthers ::
  "string \<Rightarrow> TTimingResult option \<Rightarrow> (string \<times> TTimingResult) list \<Rightarrow>
   log_line list \<Rightarrow> json_value \<Rightarrow> report" where
  "outputOthers base refTimingResult [] logged jsonValue =
     \<lparr>Thrown = None, InfoLog = logged, ResultsFile = Some jsonValue\<rparr>"
| "outputOthers base refTimingResult ((key, value) # rest) logged jsonValue =
     (if key = base then outputOthers base refTimingResult rest logged jsonValue
      else case Output value refTimingResult of
             Inl e \<Rightarrow> \<lparr>Thrown = Some e, InfoLog = logged @ [NameLine key], ResultsFile = None\<rparr>
           | Inr lines \<Rightarrow>
               (case GetJsonValue value of
                  Inl e \<Rightarrow> \<lparr>Thrown = Some e, InfoLog = logged @ [NameLine key] @ lines, ResultsFile = None\<rparr>
                | Inr j \<Rightarrow> outputOthers base refTimingResult rest
                            (logged @ [NameLine key] @ lines) (AList.update key j jsonValue)))"

definition OutputResults :: "TResults \<Rightarrow> report" where
  "OutputResults r =
     (if BaseResultName r \<noteq> []
      then (case map_of (Results r) (BaseResultName r) of
              None \<Rightarrow> \<lparr>Thrown = Some (KeyNotFound (BaseResultName r)),
                       InfoLog = [Header, NameLine (BaseResultName r)], ResultsFile = None\<rparr>
            | Some ref \<Rightarrow>
                (case Output ref (Some ref) of
                   Inl e \<Rightarrow> \<lparr>Thrown = Some e, InfoLog = [Header, NameLine (BaseResultName r)],
                             ResultsFile = None\<rparr>
                 | Inr lines \<Rightarrow>
                     (case GetJsonValue ref of
                        Inl e \<Rightarrow> \<lparr>Thrown = Some e,
                                  InfoLog = [Header, NameLine (BaseResultName r)] @ lines,
                                  ResultsFile = None\<rparr>
                      | Inr j \<Rightarrow> outputOthers (BaseResultName r) (Some ref) (Results r)
                                  ([Header, NameLine (BaseResultName r)] @ lines)
                                  (AList.update (BaseResultName r) j []))))
      else outputOthers (BaseResultName r) None (Results r) [Header] [])"

section \<open>The benchmark driver\<close>

subsection \<open>Counting loops over \<^verbatim>\<open>size_t\<close>\<close>

text \<open>
  The values that the counter of \<^verbatim>\<open>for (size_t i = from; i < n; ++i)\<close> takes, in order.
\<close>

function counter_values :: "size_t \<Rightarrow> size_t \<Rightarrow> size_t list" where
  "counter_values i n = (if i < n then i # counter_values (i + 1) n else [])"
  by pat_completeness auto
termination
proof (relation "measure (\<lambda>(i, n). unat n - unat i)")
  show "wf (measure (\<lambda>(i, n). unat n - unat i))" by simp
next
  fix i n :: size_t
  assume "i < n"
  then have "unat i < unat n" by (simp add: word_less_nat_alt)
  moreover have "unat n < 2 ^ 64" using unsigned_less [of n] by simp
  ultimately have "unat (i + 1) = unat i + 1"
    by (simp add: unat_word_ariths)
  with \<open>unat i < unat n\<close>
  show "((i + 1, n), (i, n)) \<in> measure (\<lambda>(i, n). unat n - unat i)" by simp
qed

declare counter_values.simps [simp del]

fun mapM :: "('a \<Rightarrow> error + 'b) \<Rightarrow> 'a list \<Rightarrow> error + 'b list" where
  "mapM f [] = Inr []"
| "mapM f (x # xs) = bind_err (f x) (\<lambda>y. bind_err (mapM f xs) (\<lambda>ys. Inr (y # ys)))"

subsection \<open>The data set and the block views\<close>

text \<open>
  Of the loaded data set the driver uses the number of objects, the number of features
  and, for each flat feature index, the pointer to the feature's values (one per
  object). A column is the list of the values stored from that pointer on; reading or
  slicing beyond the stored values is undefined behaviour in C++ and \<open>OutOfBounds\<close> here.
\<close>

record TCMDOptions =
  PoolPath :: string
  CdPath :: string
  ModelPath :: string
  BlockSize :: size_t
  RepetitionCount :: size_t

definition DefaultOptions :: TCMDOptions where
  "DefaultOptions = \<lparr>PoolPath = [], CdPath = [], ModelPath = [], BlockSize = - 1,
                      RepetitionCount = 1\<rparr>"

record dataset =
  ObjectCount :: size_t
  FeatureCount :: size_t
  FeatureData :: "real list list"

definition getFeatureDataBeginPtr :: "dataset \<Rightarrow> 32 word \<Rightarrow> error + real list" where
  \<comment> \<open>the parameter is a \<^verbatim>\<open>ui32\<close>: a \<^verbatim>\<open>size_t\<close> index is truncated at the call\<close>
  "getFeatureDataBeginPtr ds flatFeatureIdx =
     (if unat flatFeatureIdx < length (FeatureData ds)
      then Inr (FeatureData ds ! unat flatFeatureIdx) else Inl OutOfBounds)"

definition read_at :: "real list \<Rightarrow> size_t \<Rightarrow> error + real" where
  \<comment> \<open>\<^verbatim>\<open>ptr[i]\<close>\<close>
  "read_at ptr i = (if unat i < length ptr then Inr (ptr ! unat i) else Inl OutOfBounds)"

definition MakeArrayRef :: "real list \<Rightarrow> size_t \<Rightarrow> size_t \<Rightarrow> error + real list" where
  \<comment> \<open>\<^verbatim>\<open>MakeArrayRef(ptr + start, len)\<close>: the \<open>len\<close> values from \<open>ptr + start\<close> on\<close>
  "MakeArrayRef ptr start len =
     (if unat start + unat len \<le> length ptr
      then Inr (take (unat len) (drop (unat start) ptr)) else Inl OutOfBounds)"

definition clampBlockSize :: "TCMDOptions \<Rightarrow> dataset \<Rightarrow> size_t" where
  \<comment> \<open>\<^verbatim>\<open>options.BlockSize = Min(options.BlockSize, (size_t)dataset->GetObjectCount())\<close>\<close>
  "clampBlockSize options ds = min (BlockSize options) (ObjectCount ds)"

definition blockCount_of :: "size_t \<Rightarrow> size_t \<Rightarrow> size_t" where
  \<comment> \<open>\<^verbatim>\<open>blockCount = (docsCount) / options.BlockSize\<close>\<close>
  "blockCount_of docsCount blockSize = docsCount div blockSize"

definition blockStart_of :: "size_t \<Rightarrow> size_t \<Rightarrow> size_t" where
  "blockStart_of blockSize blockId = blockSize * blockId"

definition docsInCurrBlock_of :: "size_t \<Rightarrow> size_t \<Rightarrow> size_t \<Rightarrow> size_t" where
  "docsInCurrBlock_of blockSize docsCount blockId =
     min blockSize (docsCount - blockSize * blockId)"

definition buildTransp :: "dataset \<Rightarrow> size_t \<Rightarrow> size_t \<Rightarrow> size_t \<Rightarrow> error + real list list" where
  "buildTransp ds factorsCount blockStart docsInCurrBlock =
     mapM (\<lambda>i. bind_err (getFeatureDataBeginPtr ds (ucast i))
                 (\<lambda>ptr. MakeArrayRef ptr blockStart docsInCurrBlock))
          (counter_values 0 factorsCount)"

definition buildDocFacs :: "dataset \<Rightarrow> size_t \<Rightarrow> size_t \<Rightarrow> size_t \<Rightarrow> error + real list" where
  "buildDocFacs ds factorsCount blockStart docId =
     mapM (\<lambda>featureId. bind_err (getFeatureDataBeginPtr ds (ucast featureId))
                         (\<lambda>ptr. read_at ptr (blockStart + docId)))
          (counter_values 0 factorsCount)"

definition buildNonTransposed ::
  "dataset \<Rightarrow> size_t \<Rightarrow> size_t \<Rightarrow> size_t \<Rightarrow> error + real list list" where
  "buildNonTransposed ds factorsCount blockStart docsInCurrBlock =
     mapM (buildDocFacs ds factorsCount blockStart) (counter_values 0 docsInCurrBlock)"

text \<open>
  The three vectors that the partitioning loop fills, each with one entry per block.
  \<open>nonTranspFactorsRef\<close> refers to the vectors of \<open>nonTransposedPool\<close>, which are not
  changed afterwards: a reference is modelled by the values it refers to.
\<close>

record block_views =
  nonTransposedPool :: "real list list list"
  nonTranspFactorsRef :: "real list list list"
  transpFactorsRef :: "real list list list"

definition buildBlock ::
  "dataset \<Rightarrow> size_t \<Rightarrow> size_t \<Rightarrow> size_t \<Rightarrow> size_t \<Rightarrow> error + (real list list \<times> real list list)" where
  "buildBlock ds blockSize docsCount factorsCount blockId =
     (let blockStart = blockStart_of blockSize blockId;
          docsInCurrBlock = docsInCurrBlock_of blockSize docsCount blockId
      in if \<not> docsInCurrBlock \<ge> 0 then Inl EnsureFailed
         else bind_err (buildTransp ds factorsCount blockStart docsInCurrBlock) (\<lambda>transp.
              bind_err (buildNonTransposed ds factorsCount blockStart docsInCurrBlock) (\<lambda>pool.
                Inr (transp, pool))))"

definition buildViews :: "dataset \<Rightarrow> size_t \<Rightarrow> size_t \<Rightarrow> size_t \<Rightarrow> size_t \<Rightarrow> error + block_views" where
  "buildViews ds blockSize docsCount factorsCount blockCount =
     bind_err (mapM (buildBlock ds blockSize docsCount factorsCount) (counter_values 0 blockCount))
       (\<lambda>blocks. Inr \<lparr>nonTransposedPool = map snd blocks,
                       nonTranspFactorsRef = map snd blocks,
                       transpFactorsRef = map fst blocks\<rparr>)"

subsection \<open>Modules\<close>

text \<open>
  \<^verbatim>\<open>perftest_module.h\<close> is not part of the sources at hand: a module is the record of
  the four methods the driver calls. \<^verbatim>\<open>Do\<close> returns the elapsed time of one call; as
  the wall clock is outside the program, it may depend also on the number of calls that
  the run has made before (the last argument). The registry is the sequence of the
  registered keys, in the order of \<^verbatim>\<open>TSet\<close>, and the result of
  \<^verbatim>\<open>TPerftestModuleFactory::Construct\<close> for each key.
\<close>

record IPerftestModule =
  GetName :: "EPerftestModuleDataLayout \<Rightarrow> string"
  SupportsLayout :: "EPerftestModuleDataLayout \<Rightarrow> bool"
  GetComparisonPriority :: "EPerftestModuleDataLayout \<Rightarrow> cint"
  Do :: "EPerftestModuleDataLayout \<Rightarrow> real list list \<Rightarrow> nat \<Rightarrow> real"

datatype exn = Yexception string | OtherException string

text \<open>The local variables of \<^verbatim>\<open>DoMain\<close> from line 220 on, the call count and \<^verbatim>\<open>Cerr\<close>.\<close>

record driver =
  results :: TResults
  canonData :: TCanonData
  modules :: "IPerftestModule list"
  biggestPriority :: cint
  DoCalls :: nat
  Cerr :: "cerr_line list"

definition Min_int :: cint where
  "Min_int = - (2 ^ 31)"

definition initDriver :: "size_t \<Rightarrow> driver" where
  "initDriver blockCount =
     \<lparr>results = NewResults, canonData = NewCanonData blockCount, modules = [],
      biggestPriority = Min_int, DoCalls = 0, Cerr = []\<rparr>"

definition considerBaseline :: "IPerftestModule \<Rightarrow> EPerftestModuleDataLayout \<Rightarrow> driver \<Rightarrow> driver" where
  "considerBaseline m layout d =
     (if biggestPriority d <s GetComparisonPriority m layout
      then d\<lparr>biggestPriority := GetComparisonPriority m layout,
             results := (results d)\<lparr>BaseResultName := GetName m layout\<rparr>\<rparr>
      else d)"

definition constructModule :: "(string \<Rightarrow> exn + IPerftestModule) \<Rightarrow> string \<Rightarrow> driver \<Rightarrow> driver" where
  "constructModule Construct key d =
     (case Construct key of
        Inr m \<Rightarrow> considerBaseline m FeaturesFirst
                   (considerBaseline m ObjectsFirst (d\<lparr>modules := modules d @ [m]\<rparr>))
      | Inl (Yexception what) \<Rightarrow> d\<lparr>Cerr := Cerr d @ [FailedToConstruct key what]\<rparr>
      | Inl (OtherException msg) \<Rightarrow> d\<lparr>Cerr := Cerr d @ [FailedToConstruct key msg]\<rparr>)"

definition constructModules ::
  "(string \<Rightarrow> exn + IPerftestModule) \<Rightarrow> string list \<Rightarrow> driver \<Rightarrow> driver" where
  "constructModules Construct allRegisteredKeys d =
     fold (constructModule Construct) allRegisteredKeys d"

definition timedCall ::
  "string \<Rightarrow> IPerftestModule \<Rightarrow> EPerftestModuleDataLayout \<Rightarrow> real list list \<Rightarrow> driver \<Rightarrow> driver" where
  \<comment> \<open>\<^verbatim>\<open>results.UpdateResult(name, module->Do(layout, view))\<close>\<close>
  "timedCall name m layout view d =
     d\<lparr>results := UpdateResult name (Do m layout view (DoCalls d)) (results d),
       DoCalls := DoCalls d + 1\<rparr>"

definition runModule :: "block_views \<Rightarrow> size_t \<Rightarrow> IPerftestModule \<Rightarrow> driver \<Rightarrow> driver" where
  "runModule views blockCount m d =
     (let d1 = (if SupportsLayout m ObjectsFirst
                then fold (\<lambda>blockId. timedCall (GetName m ObjectsFirst) m ObjectsFirst
                                        (nonTranspFactorsRef views ! unat blockId))
                          (counter_values 0 blockCount) d
                else d)
      in if SupportsLayout m FeaturesFirst
         then fold (\<lambda>blockId. timedCall (GetName m ObjectsFirst) m FeaturesFirst
                                 (transpFactorsRef views ! unat blockId))
                   (counter_values 0 blockCount) d1
         else d1)"

definition runRepetitions :: "block_views \<Rightarrow> size_t \<Rightarrow> size_t \<Rightarrow> driver \<Rightarrow> driver" where
  "runRepetitions views blockCount repetitionCount d =
     fold (\<lambda>i d'. fold (runModule views blockCount) (modules d') d')
          (counter_values 0 repetitionCount) d"

text \<open>
  \<^verbatim>\<open>DoMain\<close> from line 186 on (the options are parsed, the model and the data set are
  loaded): the report and the final state of the driver, or the exception thrown before
  the driver's variables exist.
\<close>

record run =
  Report :: report
  Final :: "driver option"
  Views :: "block_views option"

definition DoMain ::
  "TCMDOptions \<Rightarrow> dataset \<Rightarrow> string list \<Rightarrow> (string \<Rightarrow> exn + IPerftestModule) \<Rightarrow> run" where
  "DoMain options ds allRegisteredKeys Construct =
     (let BlockSize' = clampBlockSize options ds
      in if \<not> BlockSize' > 0
         then \<lparr>Report = \<lparr>Thrown = Some EmptyPool, InfoLog = [], ResultsFile = None\<rparr>,
               Final = None, Views = None\<rparr>
         else
           let docsCount = ObjectCount ds;
               blockCount = blockCount_of docsCount BlockSize';
               factorsCount = FeatureCount ds
           in case buildViews ds BlockSize' docsCount factorsCount blockCount of
                Inl e \<Rightarrow> \<lparr>Report = \<lparr>Thrown = Some e, InfoLog = [], ResultsFile = None\<rparr>,
                          Final = None, Views = None\<rparr>
              | Inr views \<Rightarrow>
                  let d = runRepetitions views blockCount (RepetitionCount options)
                            (constructModules Construct allRegisteredKeys (initDriver blockCount))
                  in \<lparr>Report = OutputResults (results d), Final = Some d, Views = Some views\<rparr>)"

text \<open>
  \<^verbatim>\<open>main\<close> runs \<^verbatim>\<open>DoMain\<close> on a worker and waits for it; an exception reaches the
  handler of \<^verbatim>\<open>main\<close> through the future. The result is the exit status and what was
  written to \<^verbatim>\<open>Cerr\<close>.
\<close>

definition main ::
  "TCMDOptions \<Rightarrow> dataset \<Rightarrow> string list \<Rightarrow> (string \<Rightarrow> exn + IPerftestModule) \<Rightarrow>
   int \<times> cerr_line list" where
  "main options ds allRegisteredKeys Construct =
     (let r = DoMain options ds allRegisteredKeys Construct;
          err = (case Final r of None \<Rightarrow> [] | Some d \<Rightarrow> Cerr d)
      in case Thrown (Report r) of
           Some e \<Rightarrow> (- 1, err @ [ExceptionMessage e])
         | None \<Rightarrow> (0, err))"


subsection \<open>Notions used to state the properties\<close>

text \<open>
  A data set is well formed when it stores one column per feature and every column holds
  one value per object; every feature index fits a \<^verbatim>\<open>ui32\<close>.
\<close>

definition wf_dataset :: "dataset \<Rightarrow> bool" where
  "wf_dataset ds \<longleftrightarrow>
     unat (FeatureCount ds) \<le> 2 ^ 32 \<and>
     length (FeatureData ds) = unat (FeatureCount ds) \<and>
     (\<forall>col \<in> set (FeatureData ds). length col = unat (ObjectCount ds))"

text \<open>
  The indices of the documents that the partitioning loop reads for a block: the values
  of \<^verbatim>\<open>blockStart + docId\<close> for the \<open>docId\<close> of the inner loop.
\<close>

definition blockDocs :: "size_t \<Rightarrow> size_t \<Rightarrow> size_t \<Rightarrow> size_t list" where
  "blockDocs blockSize docsCount blockId =
     map (\<lambda>docId. blockStart_of blockSize blockId + docId)
         (counter_values 0 (docsInCurrBlock_of blockSize docsCount blockId))"

text \<open>Closed forms of the two views of a full block, used in the proofs.\<close>

definition transpBlock :: "dataset \<Rightarrow> size_t \<Rightarrow> size_t \<Rightarrow> real list list" where
  "transpBlock ds bs blockId =
     map (\<lambda>i. take (unat bs) (drop (unat bs * unat blockId) (FeatureData ds ! unat i)))
         (counter_values 0 (FeatureCount ds))"

definition poolBlock :: "dataset \<Rightarrow> size_t \<Rightarrow> size_t \<Rightarrow> real list list" where
  "poolBlock ds bs blockId =
     map (\<lambda>docId. map (\<lambda>f. FeatureData ds ! unat f ! (unat bs * unat blockId + unat docId))
                       (counter_values 0 (FeatureCount ds)))
         (counter_values 0 bs)"

text \<open>A sequence of calls of \<^verbatim>\<open>CheckOrSet\<close> by a caller that goes on after a failed call.\<close>

fun CheckOrSet_calls :: "(size_t \<times> real list) list \<Rightarrow> TCanonData \<Rightarrow> TCanonData" where
  "CheckOrSet_calls [] c = c"
| "CheckOrSet_calls ((blockId, blockResult) # calls) c =
     CheckOrSet_calls calls (fst (snd (CheckOrSet blockId blockResult c)))"

text \<open>
  The pairs of a module and a layout in the order in which the construction loop looks
  at them, and the priority of a pair as an integer.
\<close>

definition layoutPairs ::
  "IPerftestModule list \<Rightarrow> (IPerftestModule \<times> EPerftestModuleDataLayout) list" where
  "layoutPairs ms = concat (map (\<lambda>m. [(m, ObjectsFirst), (m, FeaturesFirst)]) ms)"

definition priorityOf :: "IPerftestModule \<times> EPerftestModuleDataLayout \<Rightarrow> int" where
  "priorityOf p = sint (GetComparisonPriority (fst p) (snd p))"

definition nameOf :: "IPerftestModule \<times> EPerftestModuleDataLayout \<Rightarrow> string" where
  "nameOf p = GetName (fst p) (snd p)"

definition constructed :: "(string \<Rightarrow> exn + IPerftestModule) \<Rightarrow> string list \<Rightarrow> IPerftestModule list" where
  "constructed Construct keys =
     concat (map (\<lambda>key. case Construct key of Inr m \<Rightarrow> [m] | Inl e \<Rightarrow> []) keys)"

definition what :: "exn \<Rightarrow> string" where
  "what e = (case e of Yexception msg \<Rightarrow> msg | OtherException msg \<Rightarrow> msg)"

definition failures :: "(string \<Rightarrow> exn + IPerftestModule) \<Rightarrow> string list \<Rightarrow> cerr_line list" where
  "failures Construct keys =
     concat (map (\<lambda>key. case Construct key of Inr m \<Rightarrow> [] | Inl e \<Rightarrow> [FailedToConstruct key (what e)]) keys)"

definition constructs :: "(string \<Rightarrow> exn + IPerftestModule) \<Rightarrow> string \<Rightarrow> bool" where
  "constructs Construct key = (case Construct key of Inr m \<Rightarrow> True | Inl e \<Rightarrow> False)"

text \<open>
  The baseline found so far, as the construction loop keeps it, and one comparison of
  the loop.
\<close>

definition baselineOf :: "driver \<Rightarrow> cint \<times> string" where
  "baselineOf d = (biggestPriority d, BaseResultName (results d))"

definition pick ::
  "IPerftestModule \<times> EPerftestModuleDataLayout \<Rightarrow> cint \<times> string \<Rightarrow> cint \<times> string" where
  "pick p s =
     (if fst s <s GetComparisonPriority (fst p) (snd p)
      then (GetComparisonPriority (fst p) (snd p), GetName (fst p) (snd p)) else s)"

subsection \<open>Example inputs\<close>

definition demoOptions :: TCMDOptions where
  "demoOptions = DefaultOptions\<lparr>BlockSize := 3\<rparr>"

definition demoData :: dataset where
  "demoData = \<lparr>ObjectCount = 10, FeatureCount = 2,
                FeatureData = [[0, 1, 2, 3, 4, 5, 6, 7, 8, 9],
                               [10, 11, 12, 13, 14, 15, 16, 17, 18, 19]]\<rparr>"

definition demoModule :: "string \<Rightarrow> cint \<Rightarrow> cint \<Rightarrow> IPerftestModule" where
  "demoModule name priorityObjectsFirst priorityFeaturesFirst =
     \<lparr>GetName = (\<lambda>layout. case layout of ObjectsFirst \<Rightarrow> name
                                           | FeaturesFirst \<Rightarrow> name @ ''_transposed''),
      SupportsLayout = (\<lambda>layout. True),
      GetComparisonPriority = (\<lambda>layout. case layout of ObjectsFirst \<Rightarrow> priorityObjectsFirst
                                                         | FeaturesFirst \<Rightarrow> priorityFeaturesFirst),
      Do = (\<lambda>layout view calls. real calls + 1)\<rparr>"

definition demoConstruct :: "string \<Rightarrow> exn + IPerftestModule" where
  "demoConstruct key =
     (if key = ''A'' then Inr (demoModule ''A'' 5 5)
      else if key = ''B'' then Inr (demoModule ''B'' 7 6)
      else if key = ''C'' then Inr (demoModule ''C'' 3 2)
      else if key = ''T'' then Inr (demoModule ''T'' 1 9)
      else if key = ''M'' then Inr (demoModule ''M'' Min_int Min_int)
      else Inl (Yexception ''unsupported model''))"

section \<open>Properties of the canon validator\<close>

lemma compareFrom_filter:
  "compareFrom blockId v ref i =
     map (\<lambda>j. LabeledDump blockId j (v ! j) (ref ! j) (v ! j - ref ! j))
         (filter (\<lambda>j. \<bar>v ! j - ref ! j\<bar> > Epsilon) [i..<length v])"
proof (induction blockId v ref i rule: compareFrom.induct)
  case (1 blockId v ref i)
  show ?case
  proof (cases "i < length v")
    case True
    then have "[i..<length v] = i # [i + 1..<length v]"
      by (simp add: upt_conv_Cons)
    with True 1 show ?thesis
      by (subst compareFrom.simps) simp
  next
    case False
    then show ?thesis
      by (subst compareFrom.simps) simp
  qed
qed

section \<open>Counting loops and the partition into blocks\<close>

lemma unat_succ_less: "i < (n::size_t) \<Longrightarrow> unat (i + 1) = Suc (unat i)"
proof -
  assume "i < n"
  then have "unat i < unat n" by (simp add: word_less_nat_alt)
  moreover have "unat n < 2 ^ 64" using unsigned_less [of n] by simp
  ultimately show ?thesis by (simp add: unat_word_ariths)
qed

lemma counter_values_upt: "counter_values i n = map of_nat [unat i..<unat n]"
proof (induction i n rule: counter_values.induct)
  case (1 i n)
  show ?case
  proof (cases "i < n")
    case True
    then have lt: "unat i < unat n" by (simp add: word_less_nat_alt)
    have "[unat i..<unat n] = unat i # [unat (i + 1)..<unat n]"
      using lt unat_succ_less [OF True] by (simp add: upt_conv_Cons)
    with True 1 show ?thesis
      by (subst counter_values.simps) simp
  next
    case False
    then have "\<not> unat i < unat n" by (simp add: word_less_nat_alt)
    with False show ?thesis
      by (subst counter_values.simps) simp
  qed
qed

lemma counter_values_0: "counter_values 0 n = map of_nat [0..<unat n]"
  by (simp add: counter_values_upt)

lemma block_arith:
  fixes bs docsCount blockId :: size_t
  assumes pos: "0 < bs" and le: "bs \<le> docsCount"
    and b: "blockId < docsCount div bs"
  shows "unat (bs * blockId) = unat bs * unat blockId"
    and "unat bs * unat blockId + unat bs \<le> unat docsCount"
    and "docsInCurrBlock_of bs docsCount blockId = bs"
proof -
  have bpos: "0 < unat bs" using pos by (simp add: word_less_nat_alt)
  have "unat blockId < unat docsCount div unat bs"
    using b by (simp add: word_less_nat_alt unat_div)
  then have "Suc (unat blockId) \<le> unat docsCount div unat bs" by simp
  then have "Suc (unat blockId) * unat bs \<le> unat docsCount"
    using bpos by (simp add: less_eq_div_iff_mult_less_eq)
  then show fit: "unat bs * unat blockId + unat bs \<le> unat docsCount"
    by (simp add: mult.commute)
  have "unat docsCount < 2 ^ 64" using unsigned_less [of docsCount] by simp
  with fit have "unat bs * unat blockId < 2 ^ LENGTH(64)" by simp
  then show m: "unat (bs * blockId) = unat bs * unat blockId"
    by (rule unat_mult_lem [THEN iffD1])
  have "bs * blockId \<le> docsCount"
    using fit m by (simp add: word_le_nat_alt)
  then have "unat (docsCount - bs * blockId) = unat docsCount - unat bs * unat blockId"
    using m by (simp add: unat_sub)
  with fit have "bs \<le> docsCount - bs * blockId"
    by (simp add: word_le_nat_alt)
  then show "docsInCurrBlock_of bs docsCount blockId = bs"
    by (simp add: docsInCurrBlock_of_def)
qed


lemma length_counter_values: "length (counter_values 0 n) = unat n"
  by (simp add: counter_values_0)

lemma nth_counter_values: "k < unat n \<Longrightarrow> counter_values 0 n ! k = of_nat k"
  by (simp add: counter_values_0)

lemma set_counter_values: "i \<in> set (counter_values 0 n) \<longleftrightarrow> i < n"
proof
  assume "i \<in> set (counter_values 0 n)"
  then obtain k where k: "k < unat n" and i: "i = of_nat k"
    by (auto simp: counter_values_0)
  have "unat n < 2 ^ 64" using unsigned_less [of n] by simp
  with k have "unat (of_nat k :: size_t) = k"
    by (simp add: unat_of_nat)
  with k i show "i < n" by (simp add: word_less_nat_alt)
next
  assume "i < n"
  then have "unat i < unat n" by (simp add: word_less_nat_alt)
  then have "unat i \<in> set [0..<unat n]" by simp
  then have "(of_nat (unat i) :: size_t) \<in> of_nat ` set [0..<unat n]" by (rule imageI)
  then show "i \<in> set (counter_values 0 n)" by (simp add: counter_values_0)
qed

lemma mapM_Inr: "(\<And>x. x \<in> set xs \<Longrightarrow> f x = Inr (g x)) \<Longrightarrow> mapM f xs = Inr (map g xs)"
  by (induction xs) (simp_all add: bind_err_def)

lemma getFeatureDataBeginPtr_wf:
  assumes "wf_dataset ds" and "i < FeatureCount ds"
  shows "getFeatureDataBeginPtr ds (ucast i) = Inr (FeatureData ds ! unat i)"
    and "length (FeatureData ds ! unat i) = unat (ObjectCount ds)"
proof -
  from assms have lt: "unat i < length (FeatureData ds)" and small: "unat i < 2 ^ 32"
    by (simp_all add: wf_dataset_def word_less_nat_alt)
  from small have "unat (ucast i :: 32 word) = unat i"
    by (simp add: unsigned_ucast_eq take_bit_nat_eq_self)
  with lt show "getFeatureDataBeginPtr ds (ucast i) = Inr (FeatureData ds ! unat i)"
    by (simp add: getFeatureDataBeginPtr_def)
  from lt have "FeatureData ds ! unat i \<in> set (FeatureData ds)" by simp
  with assms(1) show "length (FeatureData ds ! unat i) = unat (ObjectCount ds)"
    by (simp add: wf_dataset_def)
qed

lemma buildTransp_wf:
  assumes wf: "wf_dataset ds" and fit: "unat start + unat len \<le> unat (ObjectCount ds)"
  shows "buildTransp ds (FeatureCount ds) start len =
           Inr (map (\<lambda>i. take (unat len) (drop (unat start) (FeatureData ds ! unat i)))
                    (counter_values 0 (FeatureCount ds)))"
  unfolding buildTransp_def
proof (rule mapM_Inr)
  fix i assume "i \<in> set (counter_values 0 (FeatureCount ds))"
  then have i: "i < FeatureCount ds" by (simp add: set_counter_values)
  show "bind_err (getFeatureDataBeginPtr ds (ucast i)) (\<lambda>ptr. MakeArrayRef ptr start len) =
          Inr (take (unat len) (drop (unat start) (FeatureData ds ! unat i)))"
    using getFeatureDataBeginPtr_wf [OF wf i] fit
    by (simp add: bind_err_def MakeArrayRef_def)
qed

lemma buildDocFacs_wf:
  assumes wf: "wf_dataset ds" and fit: "unat (start + docId) < unat (ObjectCount ds)"
  shows "buildDocFacs ds (FeatureCount ds) start docId =
           Inr (map (\<lambda>f. FeatureData ds ! unat f ! unat (start + docId))
                    (counter_values 0 (FeatureCount ds)))"
  unfolding buildDocFacs_def
proof (rule mapM_Inr)
  fix f assume "f \<in> set (counter_values 0 (FeatureCount ds))"
  then have f: "f < FeatureCount ds" by (simp add: set_counter_values)
  show "bind_err (getFeatureDataBeginPtr ds (ucast f)) (\<lambda>ptr. read_at ptr (start + docId)) =
          Inr (FeatureData ds ! unat f ! unat (start + docId))"
    using getFeatureDataBeginPtr_wf [OF wf f] fit
    by (simp add: bind_err_def read_at_def)
qed

lemma buildNonTransposed_wf:
  assumes wf: "wf_dataset ds"
    and fit: "\<And>docId. docId < len \<Longrightarrow> unat (start + docId) < unat (ObjectCount ds)"
  shows "buildNonTransposed ds (FeatureCount ds) start len =
           Inr (map (\<lambda>docId. map (\<lambda>f. FeatureData ds ! unat f ! unat (start + docId))
                                  (counter_values 0 (FeatureCount ds)))
                    (counter_values 0 len))"
  unfolding buildNonTransposed_def
proof (rule mapM_Inr)
  fix docId assume "docId \<in> set (counter_values 0 len)"
  then have "docId < len" by (simp add: set_counter_values)
  from buildDocFacs_wf [OF wf fit [OF this]]
  show "buildDocFacs ds (FeatureCount ds) start docId =
          Inr (map (\<lambda>f. FeatureData ds ! unat f ! unat (start + docId))
                   (counter_values 0 (FeatureCount ds)))" .
qed

lemma doc_index:
  fixes bs docsCount blockId docId :: size_t
  assumes pos: "0 < bs" and le: "bs \<le> docsCount"
    and b: "blockId < docsCount div bs" and d: "docId < bs"
  shows "unat (bs * blockId + docId) = unat bs * unat blockId + unat docId"
    and "unat bs * unat blockId + unat docId < unat docsCount"
proof -
  note ar = block_arith [OF pos le b]
  have dl: "unat docId < unat bs" using d by (simp add: word_less_nat_alt)
  with ar(2) show lt: "unat bs * unat blockId + unat docId < unat docsCount" by simp
  have "unat docsCount < 2 ^ 64" using unsigned_less [of docsCount] by simp
  with lt have "unat (bs * blockId) + unat docId < 2 ^ LENGTH(64)"
    by (simp add: ar(1))
  then have "unat (bs * blockId + docId) = unat (bs * blockId) + unat docId"
    by (rule unat_add_lem [THEN iffD1])
  then show "unat (bs * blockId + docId) = unat bs * unat blockId + unat docId"
    by (simp add: ar(1))
qed

lemma buildBlock_wf:
  assumes wf: "wf_dataset ds" and pos: "0 < bs" and le: "bs \<le> ObjectCount ds"
    and b: "blockId < ObjectCount ds div bs"
  shows "buildBlock ds bs (ObjectCount ds) (FeatureCount ds) blockId =
           Inr (transpBlock ds bs blockId, poolBlock ds bs blockId)"
proof -
  note ar = block_arith [OF pos le b]
  have t: "buildTransp ds (FeatureCount ds) (bs * blockId) bs = Inr (transpBlock ds bs blockId)"
    using buildTransp_wf [OF wf, of "bs * blockId" bs] ar(1,2)
    by (simp add: transpBlock_def)
  have "buildNonTransposed ds (FeatureCount ds) (bs * blockId) bs =
          Inr (map (\<lambda>docId. map (\<lambda>f. FeatureData ds ! unat f ! unat (bs * blockId + docId))
                                 (counter_values 0 (FeatureCount ds)))
                   (counter_values 0 bs))"
    by (rule buildNonTransposed_wf [OF wf]) (simp add: doc_index [OF pos le b])
  also have "map (\<lambda>docId. map (\<lambda>f. FeatureData ds ! unat f ! unat (bs * blockId + docId))
                                 (counter_values 0 (FeatureCount ds)))
                   (counter_values 0 bs) = poolBlock ds bs blockId"
    unfolding poolBlock_def
    by (rule map_cong [OF refl]) (simp add: set_counter_values doc_index [OF pos le b])
  finally have p: "buildNonTransposed ds (FeatureCount ds) (bs * blockId) bs =
                     Inr (poolBlock ds bs blockId)" .
  show ?thesis
    by (simp add: buildBlock_def blockStart_of_def ar(3) t p bind_err_def)
qed

lemma buildViews_wf:
  assumes wf: "wf_dataset ds" and pos: "0 < bs" and le: "bs \<le> ObjectCount ds"
  shows "buildViews ds bs (ObjectCount ds) (FeatureCount ds) (ObjectCount ds div bs) =
           Inr \<lparr>nonTransposedPool = map (poolBlock ds bs) (counter_values 0 (ObjectCount ds div bs)),
                nonTranspFactorsRef = map (poolBlock ds bs) (counter_values 0 (ObjectCount ds div bs)),
                transpFactorsRef = map (transpBlock ds bs) (counter_values 0 (ObjectCount ds div bs))\<rparr>"
proof -
  have "mapM (buildBlock ds bs (ObjectCount ds) (FeatureCount ds))
             (counter_values 0 (ObjectCount ds div bs)) =
          Inr (map (\<lambda>blockId. (transpBlock ds bs blockId, poolBlock ds bs blockId))
                   (counter_values 0 (ObjectCount ds div bs)))"
    by (rule mapM_Inr) (simp add: set_counter_values buildBlock_wf [OF wf pos le])
  then show ?thesis
    by (simp add: buildViews_def bind_err_def comp_def)
qed

lemma nth_map_counter_values:
  "i < n \<Longrightarrow> map g (counter_values 0 n) ! unat i = g i"
  by (simp add: counter_values_0 word_less_nat_alt)

lemma length_poolBlock: "length (poolBlock ds bs blockId) = unat bs"
  by (simp add: poolBlock_def length_counter_values)

lemma length_transpBlock: "length (transpBlock ds bs blockId) = unat (FeatureCount ds)"
  by (simp add: transpBlock_def length_counter_values)

lemma poolBlock_nth:
  assumes "docId < bs"
  shows "length (poolBlock ds bs blockId ! unat docId) = unat (FeatureCount ds)"
    and "f < FeatureCount ds \<Longrightarrow>
         poolBlock ds bs blockId ! unat docId ! unat f =
           FeatureData ds ! unat f ! (unat bs * unat blockId + unat docId)"
  using assms by (simp_all add: poolBlock_def nth_map_counter_values length_counter_values)

lemma transpBlock_nth:
  assumes wf: "wf_dataset ds" and f: "f < FeatureCount ds"
    and fit: "unat bs * unat blockId + unat bs \<le> unat (ObjectCount ds)"
  shows "length (transpBlock ds bs blockId ! unat f) = unat bs"
    and "docId < bs \<Longrightarrow>
         transpBlock ds bs blockId ! unat f ! unat docId =
           FeatureData ds ! unat f ! (unat bs * unat blockId + unat docId)"
proof -
  note col = getFeatureDataBeginPtr_wf(2) [OF wf f]
  show "length (transpBlock ds bs blockId ! unat f) = unat bs"
    using f fit col by (simp add: transpBlock_def nth_map_counter_values)
  assume "docId < bs"
  then have "unat docId < unat bs" by (simp add: word_less_nat_alt)
  then show "transpBlock ds bs blockId ! unat f ! unat docId =
           FeatureData ds ! unat f ! (unat bs * unat blockId + unat docId)"
    using f fit col by (simp add: transpBlock_def nth_map_counter_values)
qed

lemma clampBlockSize_le: "clampBlockSize options ds \<le> ObjectCount ds"
  by (simp add: clampBlockSize_def)

lemma DoMain_Views:
  assumes wf: "wf_dataset ds" and pos: "0 < clampBlockSize options ds"
  shows "Views (DoMain options ds allRegisteredKeys Construct) =
           Some \<lparr>nonTransposedPool =
                   map (poolBlock ds (clampBlockSize options ds))
                       (counter_values 0 (blockCount_of (ObjectCount ds) (clampBlockSize options ds))),
                 nonTranspFactorsRef =
                   map (poolBlock ds (clampBlockSize options ds))
                       (counter_values 0 (blockCount_of (ObjectCount ds) (clampBlockSize options ds))),
                 transpFactorsRef =
                   map (transpBlock ds (clampBlockSize options ds))
                       (counter_values 0 (blockCount_of (ObjectCount ds) (clampBlockSize options ds)))\<rparr>"
  using pos buildViews_wf [OF wf pos clampBlockSize_le]
  by (simp add: DoMain_def Let_def blockCount_of_def)

lemma wf_demoData: "wf_dataset demoData"
  by (simp add: wf_dataset_def demoData_def)

lemma clamp_demo: "clampBlockSize demoOptions demoData = 3"
  by (simp add: clampBlockSize_def demoOptions_def demoData_def DefaultOptions_def)

lemma map_unat_counter_values: "map unat (counter_values 0 n) = [0..<unat n]"
proof -
  have "unat n < 2 ^ 64" using unsigned_less [of n] by simp
  then have "\<And>k. k \<in> set [0..<unat n] \<Longrightarrow> unat (of_nat k :: size_t) = k"
    by (simp add: unat_of_nat)
  then have "map (\<lambda>k. unat (of_nat k :: size_t)) [0..<unat n] = [0..<unat n]"
    by (rule map_idI)
  then show ?thesis by (simp add: counter_values_0 comp_def)
qed

lemma blockDocs_unat:
  assumes pos: "0 < bs" and le: "bs \<le> docsCount" and b: "blockId < docsCount div bs"
  shows "map unat (blockDocs bs docsCount blockId) =
           [unat blockId * unat bs..<unat blockId * unat bs + unat bs]"
proof -
  note ar = block_arith [OF pos le b]
  have "map unat (blockDocs bs docsCount blockId) =
          map (\<lambda>docId. unat (bs * blockId + docId)) (counter_values 0 bs)"
    by (simp add: blockDocs_def ar(3) blockStart_of_def comp_def)
  also have "\<dots> = map (\<lambda>docId. unat bs * unat blockId + unat docId) (counter_values 0 bs)"
    by (rule map_cong [OF refl]) (simp add: set_counter_values doc_index [OF pos le b])
  also have "\<dots> = map (\<lambda>k. k + unat bs * unat blockId) (map unat (counter_values 0 bs))"
    by (simp add: comp_def add.commute)
  also have "\<dots> = [unat bs * unat blockId..<unat bs + unat bs * unat blockId]"
    unfolding map_unat_counter_values by (rule map_add_upt)
  finally show ?thesis by (simp add: mult.commute add.commute)
qed

lemma map_nth_slice:
  assumes "s + n \<le> length xs"
  shows "map (\<lambda>i. xs ! i) [s..<s + n] = take n (drop s xs)"
proof (rule nth_equalityI)
  show "length (map (\<lambda>i. xs ! i) [s..<s + n]) = length (take n (drop s xs))"
    using assms by simp
next
  fix i assume "i < length (map (\<lambda>i. xs ! i) [s..<s + n])"
  then have "i < n" by simp
  with assms show "map (\<lambda>i. xs ! i) [s..<s + n] ! i = take n (drop s xs) ! i"
    by simp
qed

lemma transpBlock_blockDocs:
  assumes wf: "wf_dataset ds" and pos: "0 < bs" and le: "bs \<le> ObjectCount ds"
    and b: "blockId < ObjectCount ds div bs" and f: "featureId < FeatureCount ds"
  shows "transpBlock ds bs blockId ! unat featureId =
           map (\<lambda>d. FeatureData ds ! unat featureId ! unat d) (blockDocs bs (ObjectCount ds) blockId)"
proof -
  note ar = block_arith [OF pos le b]
  note col = getFeatureDataBeginPtr_wf(2) [OF wf f]
  have "map (\<lambda>d. FeatureData ds ! unat featureId ! unat d) (blockDocs bs (ObjectCount ds) blockId) =
          map (\<lambda>i. FeatureData ds ! unat featureId ! i)
              (map unat (blockDocs bs (ObjectCount ds) blockId))"
    by (simp add: comp_def)
  also have "\<dots> = map (\<lambda>i. FeatureData ds ! unat featureId ! i)
                     [unat bs * unat blockId..<unat bs * unat blockId + unat bs]"
    by (simp add: blockDocs_unat [OF pos le b] mult.commute)
  also have "\<dots> = take (unat bs) (drop (unat bs * unat blockId) (FeatureData ds ! unat featureId))"
    using ar(2) col by (intro map_nth_slice) simp
  finally show ?thesis
    using f by (simp add: transpBlock_def nth_map_counter_values)
qed

lemma poolBlock_blockDocs:
  assumes pos: "0 < bs" and le: "bs \<le> docsCount" and b: "blockId < docsCount div bs"
  shows "poolBlock ds bs blockId =
           map (\<lambda>d. map (\<lambda>f. FeatureData ds ! unat f ! unat d) (counter_values 0 (FeatureCount ds)))
               (blockDocs bs docsCount blockId)"
proof -
  have "map (\<lambda>d. map (\<lambda>f. FeatureData ds ! unat f ! unat d) (counter_values 0 (FeatureCount ds)))
            (blockDocs bs docsCount blockId) =
        map (\<lambda>docId. map (\<lambda>f. FeatureData ds ! unat f ! unat (bs * blockId + docId))
                          (counter_values 0 (FeatureCount ds)))
            (counter_values 0 bs)"
    by (simp add: blockDocs_def block_arith(3) [OF pos le b] blockStart_of_def comp_def)
  also have "\<dots> = poolBlock ds bs blockId"
    unfolding poolBlock_def
    by (rule map_cong [OF refl]) (simp add: set_counter_values doc_index [OF pos le b])
  finally show ?thesis by simp
qed

section \<open>The two views of a block\<close>

text \<open>
  Claim C5. On a well-formed data set with a non-empty effective block size the
  partitioning loop completes, and for every block, every document of the block and
  every feature, the entry of the objects-first view is the value at position
  \<open>blockStart + docId\<close> of the feature's column, which lies inside the column, and
  equals the entry of the features-first view of the same block. All indices are
  inside the vectors they index.
\<close>

theorem views_agree:
  assumes wf: "wf_dataset ds" and pos: "0 < clampBlockSize options ds"
  shows "\<exists>views. Views (DoMain options ds allRegisteredKeys Construct) = Some views \<and>
           (\<forall>blockId docId featureId.
              blockId < blockCount_of (ObjectCount ds) (clampBlockSize options ds) \<longrightarrow>
              docId < clampBlockSize options ds \<longrightarrow>
              featureId < FeatureCount ds \<longrightarrow>
                unat blockId < length (nonTranspFactorsRef views) \<and>
                unat docId < length (nonTranspFactorsRef views ! unat blockId) \<and>
                unat featureId < length (nonTranspFactorsRef views ! unat blockId ! unat docId) \<and>
                unat blockId < length (transpFactorsRef views) \<and>
                unat featureId < length (transpFactorsRef views ! unat blockId) \<and>
                unat docId < length (transpFactorsRef views ! unat blockId ! unat featureId) \<and>
                unat (blockStart_of (clampBlockSize options ds) blockId + docId)
                  < length (FeatureData ds ! unat featureId) \<and>
                nonTranspFactorsRef views ! unat blockId ! unat docId ! unat featureId =
                  FeatureData ds ! unat featureId !
                    unat (blockStart_of (clampBlockSize options ds) blockId + docId) \<and>
                nonTranspFactorsRef views ! unat blockId ! unat docId ! unat featureId =
                  transpFactorsRef views ! unat blockId ! unat featureId ! unat docId)"
proof -
  let ?bs = "clampBlockSize options ds"
  let ?bc = "blockCount_of (ObjectCount ds) ?bs"
  let ?views = "\<lparr>nonTransposedPool = map (poolBlock ds ?bs) (counter_values 0 ?bc),
                  nonTranspFactorsRef = map (poolBlock ds ?bs) (counter_values 0 ?bc),
                  transpFactorsRef = map (transpBlock ds ?bs) (counter_values 0 ?bc)\<rparr>"
  have "\<forall>blockId docId featureId.
              blockId < ?bc \<longrightarrow> docId < ?bs \<longrightarrow> featureId < FeatureCount ds \<longrightarrow>
                unat blockId < length (nonTranspFactorsRef ?views) \<and>
                unat docId < length (nonTranspFactorsRef ?views ! unat blockId) \<and>
                unat featureId < length (nonTranspFactorsRef ?views ! unat blockId ! unat docId) \<and>
                unat blockId < length (transpFactorsRef ?views) \<and>
                unat featureId < length (transpFactorsRef ?views ! unat blockId) \<and>
                unat docId < length (transpFactorsRef ?views ! unat blockId ! unat featureId) \<and>
                unat (blockStart_of ?bs blockId + docId) < length (FeatureData ds ! unat featureId) \<and>
                nonTranspFactorsRef ?views ! unat blockId ! unat docId ! unat featureId =
                  FeatureData ds ! unat featureId ! unat (blockStart_of ?bs blockId + docId) \<and>
                nonTranspFactorsRef ?views ! unat blockId ! unat docId ! unat featureId =
                  transpFactorsRef ?views ! unat blockId ! unat featureId ! unat docId"
  proof (intro allI impI)
    fix blockId docId featureId
    assume b: "blockId < ?bc" and d: "docId < ?bs" and f: "featureId < FeatureCount ds"
    from b have b': "blockId < ObjectCount ds div ?bs" by (simp add: blockCount_of_def)
    note ar = block_arith [OF pos clampBlockSize_le b']
    note ix = doc_index [OF pos clampBlockSize_le b' d]
    note col = getFeatureDataBeginPtr_wf(2) [OF wf f]
    note pn = poolBlock_nth [OF d, where ds = ds and blockId = blockId]
    note tn = transpBlock_nth [OF wf f ar(2)]
    have bl: "unat blockId < unat ?bc" and dl: "unat docId < unat ?bs"
      and fl: "unat featureId < unat (FeatureCount ds)"
      using b d f by (simp_all add: word_less_nat_alt)
    show "unat blockId < length (nonTranspFactorsRef ?views) \<and>
                unat docId < length (nonTranspFactorsRef ?views ! unat blockId) \<and>
                unat featureId < length (nonTranspFactorsRef ?views ! unat blockId ! unat docId) \<and>
                unat blockId < length (transpFactorsRef ?views) \<and>
                unat featureId < length (transpFactorsRef ?views ! unat blockId) \<and>
                unat docId < length (transpFactorsRef ?views ! unat blockId ! unat featureId) \<and>
                unat (blockStart_of ?bs blockId + docId) < length (FeatureData ds ! unat featureId) \<and>
                nonTranspFactorsRef ?views ! unat blockId ! unat docId ! unat featureId =
                  FeatureData ds ! unat featureId ! unat (blockStart_of ?bs blockId + docId) \<and>
                nonTranspFactorsRef ?views ! unat blockId ! unat docId ! unat featureId =
                  transpFactorsRef ?views ! unat blockId ! unat featureId ! unat docId"
      using bl dl fl ix col pn(1) pn(2) [OF f] tn(1) tn(2) [OF d]
      by (simp add: nth_map_counter_values [OF b] length_counter_values length_poolBlock
            length_transpBlock blockStart_of_def)
  qed
  with DoMain_Views [OF wf pos, of allRegisteredKeys Construct] show ?thesis
    by blast
qed

theorem views_agree_witness:
  "wf_dataset demoData \<and> 0 < clampBlockSize demoOptions demoData \<and>
   (\<exists>views. Views (DoMain demoOptions demoData [] (\<lambda>key. Inl (Yexception []))) = Some views \<and>
      nonTranspFactorsRef views ! 1 ! 2 ! 1 = 15 \<and>
      transpFactorsRef views ! 1 ! 1 ! 2 = 15)"
proof -
  have pos: "0 < clampBlockSize demoOptions demoData" by (simp add: clamp_demo)
  from views_agree [OF wf_demoData pos, of "[]" "\<lambda>key. Inl (Yexception [])"]
  obtain views where v: "Views (DoMain demoOptions demoData [] (\<lambda>key. Inl (Yexception []))) = Some views"
    and a: "\<And>blockId docId featureId.
              blockId < blockCount_of (ObjectCount demoData) (clampBlockSize demoOptions demoData) \<Longrightarrow>
              docId < clampBlockSize demoOptions demoData \<Longrightarrow>
              featureId < FeatureCount demoData \<Longrightarrow>
                nonTranspFactorsRef views ! unat blockId ! unat docId ! unat featureId =
                  FeatureData demoData ! unat featureId !
                    unat (blockStart_of (clampBlockSize demoOptions demoData) blockId + docId) \<and>
                nonTranspFactorsRef views ! unat blockId ! unat docId ! unat featureId =
                  transpFactorsRef views ! unat blockId ! unat featureId ! unat docId"
    by blast
  have "nonTranspFactorsRef views ! 1 ! 2 ! 1 = 15 \<and> transpFactorsRef views ! 1 ! 1 ! 2 = 15"
    using a [of 1 2 1] unfolding clamp_demo
    by (simp add: blockCount_of_def blockStart_of_def demoData_def)
  with v wf_demoData pos show ?thesis by blast
qed

section \<open>The partition into blocks\<close>

text \<open>
  Claim C2. With the effective block size \<open>min (BlockSize options) docCount\<close>, when it
  is not zero: the number of blocks is the floor of \<open>docCount / blockSize\<close>; block
  \<open>b\<close> starts at document \<open>b * blockSize\<close> and is built from the documents
  \<open>b * blockSize, \<dots>, b * blockSize + blockSize - 1\<close>; a document with index at
  least \<open>blockCount * blockSize\<close> is read for no block; and on a well-formed data
  set both views of a block hold the values of exactly the documents of the block.
  The witness is the case of 10 documents and block size 3.
\<close>

theorem block_partition:
  assumes pos: "0 < clampBlockSize options ds"
  shows "clampBlockSize options ds = min (BlockSize options) (ObjectCount ds) \<and>
         unat (blockCount_of (ObjectCount ds) (clampBlockSize options ds)) =
           unat (ObjectCount ds) div unat (clampBlockSize options ds) \<and>
         (\<forall>blockId. blockId < blockCount_of (ObjectCount ds) (clampBlockSize options ds) \<longrightarrow>
            unat (blockStart_of (clampBlockSize options ds) blockId) =
              unat blockId * unat (clampBlockSize options ds) \<and>
            map unat (blockDocs (clampBlockSize options ds) (ObjectCount ds) blockId) =
              [unat blockId * unat (clampBlockSize options ds)..<
               unat blockId * unat (clampBlockSize options ds) + unat (clampBlockSize options ds)]) \<and>
         (\<forall>d blockId.
            unat (blockCount_of (ObjectCount ds) (clampBlockSize options ds)) *
              unat (clampBlockSize options ds) \<le> unat d \<longrightarrow>
            blockId < blockCount_of (ObjectCount ds) (clampBlockSize options ds) \<longrightarrow>
            d \<notin> set (blockDocs (clampBlockSize options ds) (ObjectCount ds) blockId)) \<and>
         (wf_dataset ds \<longrightarrow>
            (\<exists>views. Views (DoMain options ds allRegisteredKeys Construct) = Some views \<and>
               (\<forall>blockId. blockId < blockCount_of (ObjectCount ds) (clampBlockSize options ds) \<longrightarrow>
                  nonTranspFactorsRef views ! unat blockId =
                    map (\<lambda>d. map (\<lambda>f. FeatureData ds ! unat f ! unat d)
                                  (counter_values 0 (FeatureCount ds)))
                        (blockDocs (clampBlockSize options ds) (ObjectCount ds) blockId) \<and>
                  (\<forall>featureId. featureId < FeatureCount ds \<longrightarrow>
                     transpFactorsRef views ! unat blockId ! unat featureId =
                       map (\<lambda>d. FeatureData ds ! unat featureId ! unat d)
                           (blockDocs (clampBlockSize options ds) (ObjectCount ds) blockId)))))"
proof -
  let ?bs = "clampBlockSize options ds"
  let ?bc = "blockCount_of (ObjectCount ds) ?bs"
  have cnt: "unat ?bc = unat (ObjectCount ds) div unat ?bs"
    by (simp add: blockCount_of_def unat_div)
  have blocks: "unat (blockStart_of ?bs blockId) = unat blockId * unat ?bs \<and>
      map unat (blockDocs ?bs (ObjectCount ds) blockId) =
        [unat blockId * unat ?bs..<unat blockId * unat ?bs + unat ?bs]"
    if "blockId < ?bc" for blockId
  proof -
    from that have b: "blockId < ObjectCount ds div ?bs" by (simp add: blockCount_of_def)
    show ?thesis
      using block_arith(1) [OF pos clampBlockSize_le b] blockDocs_unat [OF pos clampBlockSize_le b]
      by (simp add: blockStart_of_def mult.commute)
  qed
  have outside: "d \<notin> set (blockDocs ?bs (ObjectCount ds) blockId)"
    if d: "unat ?bc * unat ?bs \<le> unat d" and b: "blockId < ?bc" for d blockId
  proof
    assume "d \<in> set (blockDocs ?bs (ObjectCount ds) blockId)"
    then have "unat d \<in> set (map unat (blockDocs ?bs (ObjectCount ds) blockId))" by simp
    with blocks [OF b] have lt: "unat d < unat blockId * unat ?bs + unat ?bs" by simp
    from b have "Suc (unat blockId) \<le> unat ?bc" by (simp add: word_less_nat_alt)
    then have "Suc (unat blockId) * unat ?bs \<le> unat ?bc * unat ?bs"
      by (rule mult_le_mono1)
    with lt d show False by simp
  qed
  have views: "\<exists>views. Views (DoMain options ds allRegisteredKeys Construct) = Some views \<and>
      (\<forall>blockId. blockId < ?bc \<longrightarrow>
         nonTranspFactorsRef views ! unat blockId =
           map (\<lambda>d. map (\<lambda>f. FeatureData ds ! unat f ! unat d) (counter_values 0 (FeatureCount ds)))
               (blockDocs ?bs (ObjectCount ds) blockId) \<and>
         (\<forall>featureId. featureId < FeatureCount ds \<longrightarrow>
            transpFactorsRef views ! unat blockId ! unat featureId =
              map (\<lambda>d. FeatureData ds ! unat featureId ! unat d)
                  (blockDocs ?bs (ObjectCount ds) blockId)))"
    if wf: "wf_dataset ds"
    unfolding DoMain_Views [OF wf pos]
    using poolBlock_blockDocs [OF pos clampBlockSize_le, where ds = ds]
      transpBlock_blockDocs [OF wf pos clampBlockSize_le]
    by (simp add: nth_map_counter_values blockCount_of_def)
  have "clampBlockSize options ds = min (BlockSize options) (ObjectCount ds)"
    by (simp add: clampBlockSize_def)
  with cnt blocks outside views show ?thesis
    by blast
qed

theorem block_partition_witness:
  "0 < clampBlockSize demoOptions demoData \<and>
   ObjectCount demoData = 10 \<and> clampBlockSize demoOptions demoData = 3 \<and>
   unat (blockCount_of (ObjectCount demoData) (clampBlockSize demoOptions demoData)) = 3 \<and>
   map unat (blockDocs 3 10 0) = [0, 1, 2] \<and>
   map unat (blockDocs 3 10 1) = [3, 4, 5] \<and>
   map unat (blockDocs 3 10 2) = [6, 7, 8] \<and>
   9 \<notin> set (blockDocs 3 10 0) \<and> 9 \<notin> set (blockDocs 3 10 1) \<and> 9 \<notin> set (blockDocs 3 10 2)"
proof -
  have pos: "0 < clampBlockSize demoOptions demoData" by (simp add: clamp_demo)
  have oc: "ObjectCount demoData = 10" by (simp add: demoData_def)
  have bc: "blockCount_of 10 3 = (3 :: size_t)" by (simp add: blockCount_of_def)
  note p = block_partition [OF pos, of "[]" "\<lambda>key. Inl (Yexception [])", unfolded clamp_demo oc bc]
  from p have docs: "\<And>blockId. blockId < 3 \<Longrightarrow>
      map unat (blockDocs 3 10 blockId) = [unat blockId * unat (3 :: size_t)..<
        unat blockId * unat (3 :: size_t) + unat (3 :: size_t)]"
    by blast
  from p have out: "\<And>d blockId. unat (3 :: size_t) * unat (3 :: size_t) \<le> unat d \<Longrightarrow>
      blockId < 3 \<Longrightarrow> d \<notin> set (blockDocs 3 10 blockId)"
    by blast
  from p have cnt: "unat (3 :: size_t) = unat (10 :: size_t) div unat (3 :: size_t)"
    by blast
  have u: "[0..<3] = [0, 1, 2::nat]" "[3..<6] = [3, 4, 5::nat]" "[6..<9] = [6, 7, 8::nat]"
    by (simp_all add: upt_rec)
  show ?thesis
    using pos oc docs [of 0] docs [of 1] docs [of 2] out [of 9 0] out [of 9 1] out [of 9 2] cnt
    by (simp add: clamp_demo bc u)
qed

text \<open>
  Claim C10. For every \<open>blockId < blockCount\<close> the subtraction
  \<open>docsCount - blockSize * blockId\<close> does not wrap and
  \<open>min blockSize (docsCount - blockSize * blockId) = blockSize\<close>, so no block is
  short; on a well-formed data set every block that the driver builds has exactly
  \<open>blockSize\<close> documents in both views.
\<close>

theorem blocks_are_full:
  assumes pos: "0 < clampBlockSize options ds"
  shows "(\<forall>blockId. blockId < blockCount_of (ObjectCount ds) (clampBlockSize options ds) \<longrightarrow>
            clampBlockSize options ds * blockId \<le> ObjectCount ds \<and>
            docsInCurrBlock_of (clampBlockSize options ds) (ObjectCount ds) blockId =
              clampBlockSize options ds) \<and>
         (wf_dataset ds \<longrightarrow>
            (\<exists>views. Views (DoMain options ds allRegisteredKeys Construct) = Some views \<and>
               length (nonTranspFactorsRef views) =
                 unat (blockCount_of (ObjectCount ds) (clampBlockSize options ds)) \<and>
               length (transpFactorsRef views) =
                 unat (blockCount_of (ObjectCount ds) (clampBlockSize options ds)) \<and>
               (\<forall>blockId. blockId < blockCount_of (ObjectCount ds) (clampBlockSize options ds) \<longrightarrow>
                  length (nonTransposedPool views ! unat blockId) = unat (clampBlockSize options ds) \<and>
                  length (nonTranspFactorsRef views ! unat blockId) = unat (clampBlockSize options ds) \<and>
                  (\<forall>featureId. featureId < FeatureCount ds \<longrightarrow>
                     length (transpFactorsRef views ! unat blockId ! unat featureId) =
                       unat (clampBlockSize options ds)))))"
proof -
  let ?bs = "clampBlockSize options ds"
  let ?bc = "blockCount_of (ObjectCount ds) ?bs"
  have full: "?bs * blockId \<le> ObjectCount ds \<and>
      docsInCurrBlock_of ?bs (ObjectCount ds) blockId = ?bs" if "blockId < ?bc" for blockId
  proof -
    from that have b: "blockId < ObjectCount ds div ?bs" by (simp add: blockCount_of_def)
    note ar = block_arith [OF pos clampBlockSize_le b]
    from ar(1,2) have "?bs * blockId \<le> ObjectCount ds" by (simp add: word_le_nat_alt)
    with ar(3) show ?thesis by simp
  qed
  have views: "\<exists>views. Views (DoMain options ds allRegisteredKeys Construct) = Some views \<and>
               length (nonTranspFactorsRef views) = unat ?bc \<and>
               length (transpFactorsRef views) = unat ?bc \<and>
               (\<forall>blockId. blockId < ?bc \<longrightarrow>
                  length (nonTransposedPool views ! unat blockId) = unat ?bs \<and>
                  length (nonTranspFactorsRef views ! unat blockId) = unat ?bs \<and>
                  (\<forall>featureId. featureId < FeatureCount ds \<longrightarrow>
                     length (transpFactorsRef views ! unat blockId ! unat featureId) = unat ?bs))"
    if wf: "wf_dataset ds"
  proof -
    have "length (transpBlock ds ?bs blockId ! unat featureId) = unat ?bs"
      if "blockId < ?bc" and f: "featureId < FeatureCount ds" for blockId featureId
    proof -
      from that have b: "blockId < ObjectCount ds div ?bs" by (simp add: blockCount_of_def)
      show ?thesis
        by (rule transpBlock_nth(1) [OF wf f block_arith(2) [OF pos clampBlockSize_le b]])
    qed
    then show ?thesis
      unfolding DoMain_Views [OF wf pos]
      by (simp add: length_counter_values nth_map_counter_values length_poolBlock)
  qed
  from full views show ?thesis by blast
qed

theorem blocks_are_full_witness:
  "0 < clampBlockSize demoOptions demoData \<and> wf_dataset demoData \<and>
   docsInCurrBlock_of 3 10 0 = (3 :: size_t) \<and>
   docsInCurrBlock_of 3 10 1 = (3 :: size_t) \<and>
   docsInCurrBlock_of 3 10 2 = (3 :: size_t) \<and>
   (\<exists>views. Views (DoMain demoOptions demoData [] (\<lambda>key. Inl (Yexception []))) = Some views \<and>
      length (nonTranspFactorsRef views) = 3 \<and>
      length (nonTranspFactorsRef views ! 2) = 3 \<and>
      length (transpFactorsRef views ! 2 ! 0) = 3)"
proof -
  have pos: "0 < clampBlockSize demoOptions demoData" by (simp add: clamp_demo)
  have oc: "ObjectCount demoData = 10" and fc: "FeatureCount demoData = 2"
    by (simp_all add: demoData_def)
  have bc: "blockCount_of 10 3 = (3 :: size_t)" by (simp add: blockCount_of_def)
  note p = blocks_are_full [OF pos, of "[]" "\<lambda>key. Inl (Yexception [])",
      unfolded clamp_demo oc fc bc]
  from p have full: "\<And>blockId. blockId < 3 \<Longrightarrow> docsInCurrBlock_of 3 10 blockId = (3 :: size_t)"
    by simp
  from p wf_demoData obtain views
    where v: "Views (DoMain demoOptions demoData [] (\<lambda>key. Inl (Yexception []))) = Some views"
      and l: "length (nonTranspFactorsRef views) = unat (3 :: size_t)"
      and a: "\<And>blockId :: size_t. blockId < 3 \<Longrightarrow>
                length (nonTranspFactorsRef views ! unat blockId) = unat (3 :: size_t) \<and>
                (\<forall>featureId :: size_t. featureId < 2 \<longrightarrow>
                   length (transpFactorsRef views ! unat blockId ! unat featureId) = unat (3 :: size_t))"
    by blast
  from a [of 2] have "length (nonTranspFactorsRef views ! 2) = 3 \<and>
      length (transpFactorsRef views ! 2 ! 0) = 3"
    by (auto dest: spec [of _ "0 :: size_t"])
  with v l pos wf_demoData full [of 0] full [of 1] full [of 2] show ?thesis
    by auto
qed

section \<open>The canon validator: lemmas\<close>

lemma compareFrom_same: "compareFrom blockId v v i = []"
  by (simp add: compareFrom_filter Epsilon_def)

lemma CheckOrSet_empty:
  assumes "unat blockId < length (CanonResults c)" and "CanonResults c ! unat blockId = []"
  shows "CheckOrSet blockId v c =
           (None, c\<lparr>CanonResults := (CanonResults c)[unat blockId := v]\<rparr>, [])"
  using assms by (simp add: CheckOrSet_def compareFrom_same)

lemma CheckOrSet_nonempty:
  assumes "unat blockId < length (CanonResults c)" and "CanonResults c ! unat blockId \<noteq> []"
  shows "CheckOrSet blockId v c =
           (if length v \<noteq> length (CanonResults c ! unat blockId) then (Some EnsureFailed, c, [])
            else (None, c, compareFrom blockId v (CanonResults c ! unat blockId) 0))"
  using assms by (simp add: CheckOrSet_def)

lemma NewCanonData_2: "NewCanonData 2 = \<lparr>CanonResults = [[], []]\<rparr>"
proof -
  have "replicate 2 [] = [[], [] :: real list]" by (simp add: numeral_2_eq_2)
  then show ?thesis by (simp add: NewCanonData_def)
qed

lemma CheckOrSet_keeps:
  assumes "k < length (CanonResults c)" and "CanonResults c ! k \<noteq> []"
  shows "length (CanonResults (fst (snd (CheckOrSet blockId v c)))) = length (CanonResults c)"
    and "CanonResults (fst (snd (CheckOrSet blockId v c))) ! k = CanonResults c ! k"
  using assms by (auto simp: CheckOrSet_def Let_def nth_list_update)

lemma CheckOrSet_calls_keep:
  "k < length (CanonResults c) \<Longrightarrow> CanonResults c ! k \<noteq> [] \<Longrightarrow>
   CanonResults (CheckOrSet_calls calls c) ! k = CanonResults c ! k"
proof (induction calls arbitrary: c)
  case Nil
  then show ?case by simp
next
  case (Cons call calls)
  obtain blockId v where call: "call = (blockId, v)" by (cases call)
  let ?c' = "fst (snd (CheckOrSet blockId v c))"
  note keep = CheckOrSet_keeps [OF Cons.prems, of blockId v]
  have "CanonResults (CheckOrSet_calls calls ?c') ! k = CanonResults ?c' ! k"
    using Cons.prems keep by (intro Cons.IH) simp_all
  with keep call show ?case by simp
qed

lemma NewCanonData_1: "NewCanonData 1 = \<lparr>CanonResults = [[]]\<rparr>"
  by (simp add: NewCanonData_def)

section \<open>The canon validator: claims\<close>




text \<open>
  Claim C9 as stated fails when the first result observed for a block is empty: the
  call stores it, the block still counts as having no reference, and the next call
  replaces it.
\<close>

theorem empty_reference_is_replaced:
  "CheckOrSet 0 [] (NewCanonData 1) = (None, NewCanonData 1, []) \<and>
   CanonResults (CheckOrSet_calls [(0, [])] (NewCanonData 1)) ! 0 = [] \<and>
   CanonResults (CheckOrSet_calls [(0, []), (0, [1])] (NewCanonData 1)) ! 0 = [1] \<and>
   CanonResults (CheckOrSet_calls [(0, []), (0, [1])] (NewCanonData 1)) ! 0 \<noteq>
     CanonResults (CheckOrSet_calls [(0, [])] (NewCanonData 1)) ! 0"
  by (simp add: NewCanonData_1 CheckOrSet_def compareFrom_same)

text \<open>
  Claim C9, amended. Once the reference stored for a block is not empty, a call of
  \<open>CheckOrSet\<close> on the block leaves the whole validator unchanged, whatever the
  result vector and whether or not the call throws, and after any sequence of further
  calls, on this or other blocks, the block's reference is still the same. In
  particular a first result \<open>v\<close> that is not empty is stored and remains the
  reference after any sequence of later calls.
\<close>

theorem reference_never_mutated:
  assumes inside: "unat blockId < length (CanonResults c)"
  shows "(CanonResults c ! unat blockId \<noteq> [] \<longrightarrow>
            fst (snd (CheckOrSet blockId v c)) = c \<and>
            CanonResults (CheckOrSet_calls calls c) ! unat blockId = CanonResults c ! unat blockId) \<and>
         (CanonResults c ! unat blockId = [] \<longrightarrow> v \<noteq> [] \<longrightarrow>
            CanonResults (fst (snd (CheckOrSet blockId v c))) ! unat blockId = v \<and>
            CanonResults (CheckOrSet_calls ((blockId, v) # calls) c) ! unat blockId = v)"
proof (intro conjI impI)
  assume ne: "CanonResults c ! unat blockId \<noteq> []"
  show "fst (snd (CheckOrSet blockId v c)) = c"
    by (simp add: CheckOrSet_nonempty [OF inside ne])
  show "CanonResults (CheckOrSet_calls calls c) ! unat blockId = CanonResults c ! unat blockId"
    by (rule CheckOrSet_calls_keep [OF inside ne])
next
  assume e: "CanonResults c ! unat blockId = []" and v: "v \<noteq> []"
  let ?c' = "fst (snd (CheckOrSet blockId v c))"
  show stored: "CanonResults ?c' ! unat blockId = v"
    using inside by (simp add: CheckOrSet_empty [OF inside e])
  have "unat blockId < length (CanonResults ?c')"
    using inside by (simp add: CheckOrSet_empty [OF inside e])
  from CheckOrSet_calls_keep [OF this, of calls] stored v
  show "CanonResults (CheckOrSet_calls ((blockId, v) # calls) c) ! unat blockId = v"
    by simp
qed

theorem reference_never_mutated_witness:
  "CanonResults (CheckOrSet_calls [(0, [1, 2]), (0, [7, 8]), (1, [3]), (0, [9]), (0, [])]
      (NewCanonData 2)) ! 0 = [1, 2] \<and>
   fst (snd (CheckOrSet 0 [7, 8] \<lparr>CanonResults = [[1, 2], []]\<rparr>)) = \<lparr>CanonResults = [[1, 2], []]\<rparr>"
proof -
  have i: "unat (0 :: size_t) < length (CanonResults (NewCanonData 2))"
    by (simp add: NewCanonData_2)
  have e: "CanonResults (NewCanonData 2) ! unat (0 :: size_t) = []"
    by (simp add: NewCanonData_2)
  have j: "unat (0 :: size_t) < length (CanonResults \<lparr>CanonResults = [[1, 2], []]\<rparr>)"
    by simp
  from reference_never_mutated [OF i, of "[1, 2]" "[(0, [7, 8]), (1, [3]), (0, [9]), (0, [])]"] e
    reference_never_mutated [OF j, of "[7, 8]" "[]"]
  show ?thesis by simp
qed

section \<open>The driver: lemmas\<close>

lemma fold_keeps:
  assumes "\<And>x s. g (f x s) = g s"
  shows "g (fold f xs s) = g s"
  by (induction xs arbitrary: s) (simp_all add: assms)

lemma runModule_keeps:
  assumes "\<And>name m layout view d. g (timedCall name m layout view d) = g d"
  shows "g (runModule views blockCount m d) = g d"
  by (simp add: runModule_def Let_def fold_keeps assms)

lemma runRepetitions_keeps:
  assumes "\<And>name m layout view d. g (timedCall name m layout view d) = g d"
  shows "g (runRepetitions views blockCount repetitionCount d) = g d"
  unfolding runRepetitions_def
  by (rule fold_keeps) (simp add: fold_keeps runModule_keeps assms)

lemma timedCall_keeps:
  "canonData (timedCall name m layout view d) = canonData d"
  "modules (timedCall name m layout view d) = modules d"
  "Cerr (timedCall name m layout view d) = Cerr d"
  "baselineOf (timedCall name m layout view d) = baselineOf d"
  by (simp_all add: timedCall_def UpdateResult_def baselineOf_def)

lemmas runRepetitions_canonData = runRepetitions_keeps [of canonData, OF timedCall_keeps(1)]
lemmas runRepetitions_modules = runRepetitions_keeps [of modules, OF timedCall_keeps(2)]
lemmas runRepetitions_Cerr = runRepetitions_keeps [of Cerr, OF timedCall_keeps(3)]
lemmas runRepetitions_baselineOf = runRepetitions_keeps [of baselineOf, OF timedCall_keeps(4)]

lemma considerBaseline_keeps:
  "canonData (considerBaseline m layout d) = canonData d"
  "modules (considerBaseline m layout d) = modules d"
  "Cerr (considerBaseline m layout d) = Cerr d"
  "DoCalls (considerBaseline m layout d) = DoCalls d"
  "Results (results (considerBaseline m layout d)) = Results (results d)"
  by (simp_all add: considerBaseline_def)

lemma baselineOf_considerBaseline:
  "baselineOf (considerBaseline m layout d) = pick (m, layout) (baselineOf d)"
  by (simp add: considerBaseline_def baselineOf_def pick_def)

lemma constructModule_Inr:
  "Construct key = Inr m \<Longrightarrow>
   constructModule Construct key d =
     considerBaseline m FeaturesFirst (considerBaseline m ObjectsFirst (d\<lparr>modules := modules d @ [m]\<rparr>))"
  by (simp add: constructModule_def)

lemma constructModule_Inl:
  "Construct key = Inl e \<Longrightarrow>
   constructModule Construct key d = d\<lparr>Cerr := Cerr d @ [FailedToConstruct key (what e)]\<rparr>"
  by (cases e) (simp_all add: constructModule_def what_def)

lemma constructModule_canonData: "canonData (constructModule Construct key d) = canonData d"
  by (cases "Construct key") (simp_all add: constructModule_Inl constructModule_Inr considerBaseline_keeps)

lemma constructModules_canonData: "canonData (constructModules Construct keys d) = canonData d"
  unfolding constructModules_def by (rule fold_keeps) (rule constructModule_canonData)

lemma constructModules_modules:
  "modules (constructModules Construct keys d) = modules d @ constructed Construct keys"
proof (induction keys arbitrary: d)
  case Nil
  then show ?case by (simp add: constructModules_def constructed_def)
next
  case (Cons key keys)
  show ?case
  proof (cases "Construct key")
    case (Inl e)
    with Cons [of "constructModule Construct key d"] show ?thesis
      by (simp add: constructModules_def constructed_def constructModule_Inl)
  next
    case (Inr m)
    with Cons [of "constructModule Construct key d"] show ?thesis
      by (simp add: constructModules_def constructed_def constructModule_Inr considerBaseline_keeps)
  qed
qed

lemma constructModules_Cerr:
  "Cerr (constructModules Construct keys d) = Cerr d @ failures Construct keys"
proof (induction keys arbitrary: d)
  case Nil
  then show ?case by (simp add: constructModules_def failures_def)
next
  case (Cons key keys)
  show ?case
  proof (cases "Construct key")
    case (Inl e)
    with Cons [of "constructModule Construct key d"] show ?thesis
      by (simp add: constructModules_def failures_def constructModule_Inl)
  next
    case (Inr m)
    with Cons [of "constructModule Construct key d"] show ?thesis
      by (simp add: constructModules_def failures_def constructModule_Inr considerBaseline_keeps)
  qed
qed

lemma baselineOf_constructModules:
  "baselineOf (constructModules Construct keys d) =
     fold pick (layoutPairs (constructed Construct keys)) (baselineOf d)"
proof (induction keys arbitrary: d)
  case Nil
  then show ?case by (simp add: constructModules_def constructed_def layoutPairs_def)
next
  case (Cons key keys)
  show ?case
  proof (cases "Construct key")
    case (Inl e)
    have "baselineOf (constructModule Construct key d) = baselineOf d"
      by (simp add: constructModule_Inl [of Construct key, OF Inl] baselineOf_def)
    with Inl Cons [of "constructModule Construct key d"] show ?thesis
      by (simp add: constructModules_def constructed_def)
  next
    case (Inr m)
    have "baselineOf (d\<lparr>modules := modules d @ [m]\<rparr>) = baselineOf d"
      by (simp add: baselineOf_def)
    then have "baselineOf (constructModule Construct key d) =
            pick (m, FeaturesFirst) (pick (m, ObjectsFirst) (baselineOf d))"
      by (simp add: constructModule_Inr [of Construct key, OF Inr] baselineOf_considerBaseline)
    with Inr Cons [of "constructModule Construct key d"] show ?thesis
      by (simp add: constructModules_def constructed_def layoutPairs_def)
  qed
qed

lemma DoMain_Final:
  assumes "Final (DoMain options ds allRegisteredKeys Construct) = Some d"
  shows "\<exists>views. Views (DoMain options ds allRegisteredKeys Construct) = Some views \<and>
           d = runRepetitions views (blockCount_of (ObjectCount ds) (clampBlockSize options ds))
                 (RepetitionCount options)
                 (constructModules Construct allRegisteredKeys
                    (initDriver (blockCount_of (ObjectCount ds) (clampBlockSize options ds)))) \<and>
           Report (DoMain options ds allRegisteredKeys Construct) = OutputResults (results d)"
  using assms by (auto simp: DoMain_def Let_def split: if_splits sum.splits)

lemma DoMain_wf:
  assumes wf: "wf_dataset ds" and pos: "0 < clampBlockSize options ds"
  shows "\<exists>d. Final (DoMain options ds allRegisteredKeys Construct) = Some d"
  using pos buildViews_wf [OF wf pos clampBlockSize_le]
  by (simp add: DoMain_def Let_def blockCount_of_def)

lemma sint_Min_int: "sint Min_int = - (2 ^ 31)"
  by (simp add: Min_int_def)

lemma baselineOf_initDriver: "baselineOf (initDriver blockCount) = (Min_int, [])"
  by (simp add: baselineOf_def initDriver_def NewResults_def)

lemma pick_unchanged:
  "(\<And>p. p \<in> set ps \<Longrightarrow> priorityOf p \<le> sint (fst s)) \<Longrightarrow> fold pick ps s = s"
proof (induction ps arbitrary: s)
  case Nil
  then show ?case by simp
next
  case (Cons p ps)
  from Cons.prems [of p] have "pick p s = s"
    by (simp add: pick_def priorityOf_def word_sless_alt)
  with Cons show ?case by simp
qed

lemma fold_pick_first_max:
  assumes "k < length ps"
    and "sint (fst s) < priorityOf (ps ! k)"
    and "\<And>j. j < k \<Longrightarrow> priorityOf (ps ! j) < priorityOf (ps ! k)"
    and "\<And>j. j < length ps \<Longrightarrow> priorityOf (ps ! j) \<le> priorityOf (ps ! k)"
  shows "fold pick ps s = (GetComparisonPriority (fst (ps ! k)) (snd (ps ! k)), nameOf (ps ! k))"
  using assms
proof (induction ps arbitrary: k s)
  case Nil
  then show ?case by simp
next
  case (Cons p ps)
  show ?case
  proof (cases k)
    case 0
    with Cons.prems(2) have p: "pick p s = (GetComparisonPriority (fst p) (snd p), nameOf p)"
      by (simp add: pick_def priorityOf_def nameOf_def word_sless_alt)
    have "fold pick ps (GetComparisonPriority (fst p) (snd p), nameOf p) =
            (GetComparisonPriority (fst p) (snd p), nameOf p)"
    proof (rule pick_unchanged)
      fix q assume "q \<in> set ps"
      then obtain i where "i < length ps" and "q = ps ! i" by (auto simp: in_set_conv_nth)
      with Cons.prems(4) [of "Suc i"] 0
      show "priorityOf q \<le> sint (fst (GetComparisonPriority (fst p) (snd p), nameOf p))"
        by (simp add: priorityOf_def)
    qed
    with p 0 show ?thesis by simp
  next
    case (Suc k')
    from Cons.prems(3) [of 0] Suc have lt: "priorityOf p < priorityOf (ps ! k')" by simp
    have "k' < length ps" using Cons.prems(1) Suc by simp
    moreover have "sint (fst (pick p s)) < priorityOf (ps ! k')"
      using lt Cons.prems(2) Suc by (simp add: pick_def priorityOf_def)
    moreover have "\<And>j. j < k' \<Longrightarrow> priorityOf (ps ! j) < priorityOf (ps ! k')"
      using Cons.prems(3) [of "Suc j" for j] Suc by simp
    moreover have "\<And>j. j < length ps \<Longrightarrow> priorityOf (ps ! j) \<le> priorityOf (ps ! k')"
      using Cons.prems(4) [of "Suc j" for j] Suc by simp
    ultimately have "fold pick ps (pick p s) =
        (GetComparisonPriority (fst (ps ! k')) (snd (ps ! k')), nameOf (ps ! k'))"
      by (rule Cons.IH)
    with Suc show ?thesis by simp
  qed
qed

lemma first_max_exists:
  fixes f :: "'a \<Rightarrow> int"
  assumes "ps \<noteq> []"
  shows "\<exists>k<length ps. (\<forall>j<k. f (ps ! j) < f (ps ! k)) \<and> (\<forall>j<length ps. f (ps ! j) \<le> f (ps ! k))"
proof -
  let ?M = "Max (f ` set ps)"
  have fin: "finite (f ` set ps)" and ne: "f ` set ps \<noteq> {}" using assms by simp_all
  from Max_in [OF fin ne] obtain k where k: "k < length ps \<and> f (ps ! k) = ?M"
    by (auto simp: in_set_conv_nth)
  define k0 where "k0 = (LEAST k. k < length ps \<and> f (ps ! k) = ?M)"
  have k0: "k0 < length ps \<and> f (ps ! k0) = ?M"
    unfolding k0_def by (rule LeastI [of _ k]) (rule k)
  have le: "f (ps ! j) \<le> ?M" if "j < length ps" for j
    using that fin by (intro Max_ge) simp_all
  have "f (ps ! j) < f (ps ! k0)" if "j < k0" for j
  proof -
    from that k0 have j: "j < length ps" by simp
    from that have "\<not> (j < length ps \<and> f (ps ! j) = ?M)"
      unfolding k0_def by (rule not_less_Least)
    then have "f (ps ! j) \<noteq> ?M" using j by blast
    moreover note le [OF j]
    ultimately have "f (ps ! j) < ?M" by (rule le_neq_trans [OF _ _, rotated])
    with k0 show ?thesis by simp
  qed
  with k0 le show ?thesis by auto
qed

section \<open>The driver: runs and their reports\<close>

lemma DoMain_eq:
  assumes wf: "wf_dataset ds" and pos: "0 < clampBlockSize options ds"
  shows "\<exists>views. DoMain options ds allRegisteredKeys Construct =
           \<lparr>Report = OutputResults (results
               (runRepetitions views (blockCount_of (ObjectCount ds) (clampBlockSize options ds))
                 (RepetitionCount options)
                 (constructModules Construct allRegisteredKeys
                    (initDriver (blockCount_of (ObjectCount ds) (clampBlockSize options ds)))))),
             Final = Some (runRepetitions views (blockCount_of (ObjectCount ds) (clampBlockSize options ds))
                 (RepetitionCount options)
                 (constructModules Construct allRegisteredKeys
                    (initDriver (blockCount_of (ObjectCount ds) (clampBlockSize options ds))))),
             Views = Some views\<rparr>"
  using pos buildViews_wf [OF wf pos clampBlockSize_le]
  by (simp add: DoMain_def Let_def blockCount_of_def)

lemma demo_blockCount: "blockCount_of (ObjectCount demoData) (clampBlockSize demoOptions demoData) = 3"
  unfolding clamp_demo by (simp add: blockCount_of_def demoData_def)

lemma demo_repetitions: "RepetitionCount demoOptions = 1"
  by (simp add: demoOptions_def DefaultOptions_def)

lemma cv3: "counter_values 0 3 = [0, 1, 2]"
  by (simp add: counter_values_0 upt_rec)

lemma cv1: "counter_values 0 1 = [0]"
  by (simp add: counter_values_0)

lemma constructed_filter:
  "constructed Construct (filter (constructs Construct) keys) = constructed Construct keys"
  by (induction keys) (auto simp: constructed_def constructs_def split: sum.splits)

lemma failures_filter: "failures Construct (filter (constructs Construct) keys) = []"
  by (induction keys) (auto simp: failures_def constructs_def split: sum.splits)

lemma constructModule_fields:
  "Results (results (constructModule Construct key d)) = Results (results d)"
  "DoCalls (constructModule Construct key d) = DoCalls d"
  by (cases "Construct key";
      simp add: constructModule_Inl constructModule_Inr considerBaseline_keeps)+

lemma constructModules_fields:
  "Results (results (constructModules Construct keys d)) = Results (results d)"
  "DoCalls (constructModules Construct keys d) = DoCalls d"
  unfolding constructModules_def
  by (rule fold_keeps [where g = "\<lambda>d. Results (results d)"], rule constructModule_fields)
     (rule fold_keeps, rule constructModule_fields)

lemma constructModules_filter:
  "constructModules Construct keys d =
     (constructModules Construct (filter (constructs Construct) keys) d)
       \<lparr>Cerr := Cerr d @ failures Construct keys\<rparr>"
proof (rule driver.equality)
  let ?l = "constructModules Construct keys d"
  let ?r = "(constructModules Construct (filter (constructs Construct) keys) d)
              \<lparr>Cerr := Cerr d @ failures Construct keys\<rparr>"
  have "baselineOf ?r =
          baselineOf (constructModules Construct (filter (constructs Construct) keys) d)"
    by (simp add: baselineOf_def)
  then have b: "baselineOf ?l = baselineOf ?r"
    by (simp add: baselineOf_constructModules constructed_filter)
  show "results ?l = results ?r"
  proof (rule TResults.equality)
    show "Results (results ?l) = Results (results ?r)"
      by (simp add: constructModules_fields)
    from b show "BaseResultName (results ?l) = BaseResultName (results ?r)"
      by (simp add: baselineOf_def)
  qed simp
  from b show "biggestPriority ?l = biggestPriority ?r"
    by (simp add: baselineOf_def)
  show "canonData ?l = canonData ?r" by (simp add: constructModules_canonData)
  show "modules ?l = modules ?r" by (simp add: constructModules_modules constructed_filter)
  show "DoCalls ?l = DoCalls ?r" by (simp add: constructModules_fields)
  show "Cerr ?l = Cerr ?r" by (simp add: constructModules_Cerr)
qed simp

lemma fold_commute_update:
  assumes "\<And>x s. f x (u s) = u (f x s)"
  shows "fold f xs (u s) = u (fold f xs s)"
  by (induction xs arbitrary: s) (simp_all add: assms)

lemma timedCall_Cerr_update:
  "timedCall name m layout view (d\<lparr>Cerr := x\<rparr>) = (timedCall name m layout view d)\<lparr>Cerr := x\<rparr>"
  by (simp add: timedCall_def)

lemma runModule_Cerr_update:
  "runModule views blockCount m (d\<lparr>Cerr := x\<rparr>) = (runModule views blockCount m d)\<lparr>Cerr := x\<rparr>"
  by (simp add: runModule_def Let_def timedCall_Cerr_update
      fold_commute_update [where u = "\<lambda>d. d\<lparr>Cerr := x\<rparr>"])

lemma runRepetitions_Cerr_update:
  "runRepetitions views blockCount repetitionCount (d\<lparr>Cerr := x\<rparr>) =
     (runRepetitions views blockCount repetitionCount d)\<lparr>Cerr := x\<rparr>"
  unfolding runRepetitions_def
  by (rule fold_commute_update)
     (simp add: runModule_Cerr_update fold_commute_update [where u = "\<lambda>d. d\<lparr>Cerr := x\<rparr>"])

lemma DoMain_filter:
  "DoMain options ds allRegisteredKeys Construct =
     (let r = DoMain options ds (filter (constructs Construct) allRegisteredKeys) Construct
      in r\<lparr>Final := map_option (\<lambda>d. d\<lparr>Cerr := failures Construct allRegisteredKeys\<rparr>) (Final r)\<rparr>)"
  by (simp add: DoMain_def Let_def constructModules_filter [of Construct allRegisteredKeys]
      runRepetitions_Cerr_update initDriver_def split: sum.splits)

lemma demo_run:
  "\<exists>views. DoMain demoOptions demoData keys demoConstruct =
     \<lparr>Report = OutputResults (results
         (runRepetitions views 3 1 (constructModules demoConstruct keys (initDriver 3)))),
      Final = Some (runRepetitions views 3 1 (constructModules demoConstruct keys (initDriver 3))),
      Views = Some views\<rparr>"
proof -
  have pos: "0 < clampBlockSize demoOptions demoData" by (simp add: clamp_demo)
  from DoMain_eq [OF wf_demoData pos, of keys demoConstruct] show ?thesis
    by (simp add: demo_blockCount demo_repetitions)
qed

lemma demo_constructed_ABC:
  "layoutPairs (constructed demoConstruct [''A'', ''B'', ''C'']) =
     [(demoModule ''A'' 5 5, ObjectsFirst), (demoModule ''A'' 5 5, FeaturesFirst),
      (demoModule ''B'' 7 6, ObjectsFirst), (demoModule ''B'' 7 6, FeaturesFirst),
      (demoModule ''C'' 3 2, ObjectsFirst), (demoModule ''C'' 3 2, FeaturesFirst)]"
  by (simp add: layoutPairs_def constructed_def demoConstruct_def)

lemma NewCanonData_3: "NewCanonData 3 = \<lparr>CanonResults = [[], [], []]\<rparr>"
proof -
  have "replicate 3 [] = [[], [], [] :: real list]" by (simp add: numeral_3_eq_3)
  then show ?thesis by (simp add: NewCanonData_def)
qed

lemma demoModule_sel:
  "GetName (demoModule name a b) ObjectsFirst = name"
  "GetName (demoModule name a b) FeaturesFirst = name @ ''_transposed''"
  "SupportsLayout (demoModule name a b) layout"
  "GetComparisonPriority (demoModule name a b) ObjectsFirst = a"
  "GetComparisonPriority (demoModule name a b) FeaturesFirst = b"
  "Do (demoModule name a b) layout view calls = real calls + 1"
  by (simp_all add: demoModule_def)

lemmas run_simps = runRepetitions_def cv3 cv1 constructModules_def constructModule_def
  demoConstruct_def considerBaseline_def initDriver_def runModule_def timedCall_def
  UpdateResult_def Add_def NewTimingResult_def NewResults_def demoModule_sel Min_int_def Let_def

lemma run_AXC:
  "runRepetitions views 3 1 (constructModules demoConstruct [''A'', ''X'', ''C''] (initDriver 3)) =
     \<lparr>results = \<lparr>Results = [(''A'', \<lparr>Times = [1, 2, 3, 4, 5, 6]\<rparr>),
                             (''C'', \<lparr>Times = [7, 8, 9, 10, 11, 12]\<rparr>)],
                  BaseResultName = ''A''\<rparr>,
      canonData = NewCanonData 3,
      modules = [demoModule ''A'' 5 5, demoModule ''C'' 3 2],
      biggestPriority = 5, DoCalls = 12,
      Cerr = [FailedToConstruct ''X'' ''unsupported model'']\<rparr>"
  by (simp add: run_simps)

lemma output_AC:
  "OutputResults \<lparr>Results = [(''A'', \<lparr>Times = [1, 2, 3, 4, 5, 6]\<rparr>),
                             (''C'', \<lparr>Times = [7, 8, 9, 10, 11, 12]\<rparr>)],
                  BaseResultName = ''A''\<rparr> =
     \<lparr>Thrown = None,
      InfoLog = [Header,
                 NameLine ''A'', StatLine ''min:'' 1 (Some 1), StatLine ''max:'' 6 (Some 1),
                 StatLine ''mean:'' (7 / 2) (Some 1),
                 NameLine ''C'', StatLine ''min:'' 7 (Some 7), StatLine ''max:'' 12 (Some 2),
                 StatLine ''mean:'' (19 / 2) (Some (19 / 7))],
      ResultsFile = Some [(''A'', \<lparr>json_min = 1, json_max = 6, json_mean = 7 / 2\<rparr>),
                          (''C'', \<lparr>json_min = 7, json_max = 12, json_mean = 19 / 2\<rparr>)]\<rparr>"
  by (simp add: OutputResults_def Output_def GetJsonValue_def Min_time_def Max_time_def Mean_def
      ratio_to_def bind_err_def)

lemma run_T:
  "runRepetitions views 3 1 (constructModules demoConstruct [''T''] (initDriver 3)) =
     \<lparr>results = \<lparr>Results = [(''T'', \<lparr>Times = [1, 2, 3, 4, 5, 6]\<rparr>)],
                  BaseResultName = ''T_transposed''\<rparr>,
      canonData = NewCanonData 3,
      modules = [demoModule ''T'' 1 9],
      biggestPriority = 9, DoCalls = 6, Cerr = []\<rparr>"
  by (simp add: run_simps word_sless_alt)

lemma run_A_full:
  "runRepetitions views 3 1 (constructModules demoConstruct [''A''] (initDriver 3)) =
     \<lparr>results = \<lparr>Results = [(''A'', \<lparr>Times = [1, 2, 3, 4, 5, 6]\<rparr>)], BaseResultName = ''A''\<rparr>,
      canonData = NewCanonData 3,
      modules = [demoModule ''A'' 5 5],
      biggestPriority = 5, DoCalls = 6, Cerr = []\<rparr>"
  by (simp add: run_simps)

lemma run_M:
  "results (runRepetitions views 3 1 (constructModules demoConstruct [''M''] (initDriver 3))) =
     \<lparr>Results = [(''M'', \<lparr>Times = [1, 2, 3, 4, 5, 6]\<rparr>)], BaseResultName = []\<rparr>"
  by (simp add: run_simps word_sless_alt)

section \<open>The driver: claims\<close>

text \<open>
  Claim C3 as stated fails when no priority exceeds \<open>Min<int>()\<close>, the value from
  which the loop starts: with one module whose two priorities are \<open>Min<int>()\<close>,
  the first pair seen has the highest priority, yet no baseline is chosen.
\<close>

theorem lowest_priority_is_never_baseline:
  "layoutPairs (constructed demoConstruct [''M'']) =
     [(demoModule ''M'' Min_int Min_int, ObjectsFirst),
      (demoModule ''M'' Min_int Min_int, FeaturesFirst)] \<and>
   priorityOf (demoModule ''M'' Min_int Min_int, ObjectsFirst) = - (2 ^ 31) \<and>
   priorityOf (demoModule ''M'' Min_int Min_int, FeaturesFirst) = - (2 ^ 31) \<and>
   nameOf (demoModule ''M'' Min_int Min_int, ObjectsFirst) = ''M'' \<and>
   map_option (BaseResultName \<circ> results)
     (Final (DoMain demoOptions demoData [''M''] demoConstruct)) = Some [] \<and>
   map_option (BaseResultName \<circ> results)
     (Final (DoMain demoOptions demoData [''M''] demoConstruct)) \<noteq>
     Some (nameOf (layoutPairs (constructed demoConstruct [''M'']) ! 0))"
proof -
  have pairs: "layoutPairs (constructed demoConstruct [''M'']) =
     [(demoModule ''M'' Min_int Min_int, ObjectsFirst),
      (demoModule ''M'' Min_int Min_int, FeaturesFirst)]"
    by (simp add: layoutPairs_def constructed_def demoConstruct_def)
  have prio: "priorityOf (demoModule ''M'' Min_int Min_int, ObjectsFirst) = - (2 ^ 31)"
    "priorityOf (demoModule ''M'' Min_int Min_int, FeaturesFirst) = - (2 ^ 31)"
    by (simp_all add: priorityOf_def demoModule_sel sint_Min_int)
  have name: "nameOf (demoModule ''M'' Min_int Min_int, ObjectsFirst) = ''M''"
    by (simp add: nameOf_def demoModule_sel)
  from demo_run [of "[''M'']"]
  have base: "map_option (BaseResultName \<circ> results)
      (Final (DoMain demoOptions demoData [''M''] demoConstruct)) = Some []"
    by (auto simp: run_M)
  show ?thesis
    unfolding base pairs by (simp add: prio name)
qed

text \<open>
  Claim C3, amended. The construction loop looks at the pairs of a constructed module
  and a layout in the order of the registered keys, objects-first before
  features-first within a module. When the run reaches the report, the baseline name
  is the display name of the pair whose priority exceeds \<open>Min<int>()\<close>, is strictly
  greater than that of every pair before it and is not less than that of any pair
  (the first pair with the highest priority, so ties keep the first seen); such a pair
  exists as soon as one priority exceeds \<open>Min<int>()\<close>, and the name stays empty
  when none does. The witness has the priorities 5, 7 and 3 for A, B and C: the
  baseline is the name of B for the objects-first layout, which reported 7.
\<close>

theorem baseline_selection:
  assumes fin: "Final (DoMain options ds allRegisteredKeys Construct) = Some d"
  shows "(\<forall>k. k < length (layoutPairs (constructed Construct allRegisteredKeys)) \<longrightarrow>
            - (2 ^ 31) < priorityOf (layoutPairs (constructed Construct allRegisteredKeys) ! k) \<longrightarrow>
            (\<forall>j<k. priorityOf (layoutPairs (constructed Construct allRegisteredKeys) ! j) <
                    priorityOf (layoutPairs (constructed Construct allRegisteredKeys) ! k)) \<longrightarrow>
            (\<forall>j<length (layoutPairs (constructed Construct allRegisteredKeys)).
                    priorityOf (layoutPairs (constructed Construct allRegisteredKeys) ! j) \<le>
                    priorityOf (layoutPairs (constructed Construct allRegisteredKeys) ! k)) \<longrightarrow>
            BaseResultName (results d) =
              nameOf (layoutPairs (constructed Construct allRegisteredKeys) ! k)) \<and>
         ((\<exists>p \<in> set (layoutPairs (constructed Construct allRegisteredKeys)). - (2 ^ 31) < priorityOf p) \<longrightarrow>
            (\<exists>k<length (layoutPairs (constructed Construct allRegisteredKeys)).
               (\<forall>j<k. priorityOf (layoutPairs (constructed Construct allRegisteredKeys) ! j) <
                       priorityOf (layoutPairs (constructed Construct allRegisteredKeys) ! k)) \<and>
               (\<forall>j<length (layoutPairs (constructed Construct allRegisteredKeys)).
                       priorityOf (layoutPairs (constructed Construct allRegisteredKeys) ! j) \<le>
                       priorityOf (layoutPairs (constructed Construct allRegisteredKeys) ! k)) \<and>
               BaseResultName (results d) =
                 nameOf (layoutPairs (constructed Construct allRegisteredKeys) ! k))) \<and>
         ((\<forall>p \<in> set (layoutPairs (constructed Construct allRegisteredKeys)). priorityOf p = - (2 ^ 31)) \<longrightarrow>
            BaseResultName (results d) = [])"
proof -
  let ?ps = "layoutPairs (constructed Construct allRegisteredKeys)"
  from DoMain_Final [OF fin] obtain views where
    d: "d = runRepetitions views (blockCount_of (ObjectCount ds) (clampBlockSize options ds))
              (RepetitionCount options)
              (constructModules Construct allRegisteredKeys
                 (initDriver (blockCount_of (ObjectCount ds) (clampBlockSize options ds))))"
    by blast
  have base: "baselineOf d = fold pick ?ps (Min_int, [])"
    unfolding d
    by (simp add: runRepetitions_baselineOf baselineOf_constructModules baselineOf_initDriver)
  have first: "BaseResultName (results d) = nameOf (?ps ! k)"
    if "k < length ?ps" and "- (2 ^ 31) < priorityOf (?ps ! k)"
      and "\<forall>j<k. priorityOf (?ps ! j) < priorityOf (?ps ! k)"
      and "\<forall>j<length ?ps. priorityOf (?ps ! j) \<le> priorityOf (?ps ! k)" for k
  proof -
    have "fold pick ?ps (Min_int, []) =
            (GetComparisonPriority (fst (?ps ! k)) (snd (?ps ! k)), nameOf (?ps ! k))"
      using that by (intro fold_pick_first_max) (simp_all add: sint_Min_int)
    with base show ?thesis by (simp add: baselineOf_def)
  qed
  have ex: "\<exists>k<length ?ps. (\<forall>j<k. priorityOf (?ps ! j) < priorityOf (?ps ! k)) \<and>
              (\<forall>j<length ?ps. priorityOf (?ps ! j) \<le> priorityOf (?ps ! k)) \<and>
              BaseResultName (results d) = nameOf (?ps ! k)"
    if "\<exists>p \<in> set ?ps. - (2 ^ 31) < priorityOf p"
  proof -
    from that obtain i where i: "i < length ?ps" and ip: "- (2 ^ 31) < priorityOf (?ps ! i)"
      by (auto simp: in_set_conv_nth)
    then have "?ps \<noteq> []" by auto
    from first_max_exists [OF this, of priorityOf] obtain k where
      k: "k < length ?ps" "\<forall>j<k. priorityOf (?ps ! j) < priorityOf (?ps ! k)"
         "\<forall>j<length ?ps. priorityOf (?ps ! j) \<le> priorityOf (?ps ! k)"
      by blast
    from k(3) i ip have "- (2 ^ 31) < priorityOf (?ps ! k)" by fastforce
    from first [OF k(1) this k(2) k(3)] k show ?thesis by blast
  qed
  have none: "BaseResultName (results d) = []"
    if "\<forall>p \<in> set ?ps. priorityOf p = - (2 ^ 31)"
  proof -
    have "fold pick ?ps (Min_int, []) = (Min_int, [])"
      using that by (intro pick_unchanged) (simp add: sint_Min_int)
    with base show ?thesis by (simp add: baselineOf_def)
  qed
  from first ex none show ?thesis by blast
qed

theorem baseline_selection_witness:
  "\<exists>d. Final (DoMain demoOptions demoData [''A'', ''B'', ''C''] demoConstruct) = Some d \<and>
       map priorityOf (layoutPairs (constructed demoConstruct [''A'', ''B'', ''C''])) =
         [5, 5, 7, 6, 3, 2] \<and>
       BaseResultName (results d) = GetName (demoModule ''B'' 7 6) ObjectsFirst \<and>
       BaseResultName (results d) = ''B''"
proof -
  from demo_run [of "[''A'', ''B'', ''C'']"] obtain d where
    fin: "Final (DoMain demoOptions demoData [''A'', ''B'', ''C''] demoConstruct) = Some d"
    by auto
  have prios: "map priorityOf (layoutPairs (constructed demoConstruct [''A'', ''B'', ''C''])) =
      [5, 5, 7, 6, 3, 2]"
    by (simp add: demo_constructed_ABC priorityOf_def demoModule_def)
  have two: "j < 2 \<longleftrightarrow> j = 0 \<or> j = 1" for j :: nat by auto
  from baseline_selection [OF fin]
  have "2 < length (layoutPairs (constructed demoConstruct [''A'', ''B'', ''C''])) \<longrightarrow>
      - (2 ^ 31) < priorityOf (layoutPairs (constructed demoConstruct [''A'', ''B'', ''C'']) ! 2) \<longrightarrow>
      (\<forall>j<2. priorityOf (layoutPairs (constructed demoConstruct [''A'', ''B'', ''C'']) ! j) <
              priorityOf (layoutPairs (constructed demoConstruct [''A'', ''B'', ''C'']) ! 2)) \<longrightarrow>
      (\<forall>j<length (layoutPairs (constructed demoConstruct [''A'', ''B'', ''C''])).
              priorityOf (layoutPairs (constructed demoConstruct [''A'', ''B'', ''C'']) ! j) \<le>
              priorityOf (layoutPairs (constructed demoConstruct [''A'', ''B'', ''C'']) ! 2)) \<longrightarrow>
      BaseResultName (results d) =
        nameOf (layoutPairs (constructed demoConstruct [''A'', ''B'', ''C'']) ! 2)"
    by blast
  then have "BaseResultName (results d) = ''B''"
    unfolding demo_constructed_ABC
    by (simp add: two All_less_Suc priorityOf_def nameOf_def demoModule_def)
  with fin prios show ?thesis by (simp add: demoModule_def)
qed

text \<open>
  Claim C6. The construction loop over all registered keys ends in the state that the
  loop over only the keys that construct ends in, except that \<open>Cerr\<close> has gained one
  line with the key and the message for each key that failed, in key order. The
  modules of the run are those of all keys that construct, in key order. The run with
  the failing keys registered has the same report and the same exit status as the run
  without them, and the same final state but for \<open>Cerr\<close>: a failed construction
  contributes nothing to the results and ends nothing.
\<close>

theorem construction_failure_isolated:
  "constructModules Construct allRegisteredKeys d =
     (constructModules Construct (filter (constructs Construct) allRegisteredKeys) d)
       \<lparr>Cerr := Cerr d @ failures Construct allRegisteredKeys\<rparr> \<and>
   modules (constructModules Construct allRegisteredKeys d) =
     modules d @ constructed Construct allRegisteredKeys \<and>
   Report (DoMain options ds allRegisteredKeys Construct) =
     Report (DoMain options ds (filter (constructs Construct) allRegisteredKeys) Construct) \<and>
   fst (main options ds allRegisteredKeys Construct) =
     fst (main options ds (filter (constructs Construct) allRegisteredKeys) Construct) \<and>
   (\<forall>final. Final (DoMain options ds allRegisteredKeys Construct) = Some final \<longrightarrow>
      modules final = constructed Construct allRegisteredKeys \<and>
      Cerr final = failures Construct allRegisteredKeys \<and>
      Final (DoMain options ds (filter (constructs Construct) allRegisteredKeys) Construct) =
        Some (final\<lparr>Cerr := []\<rparr>)) \<and>
   (\<forall>final. Final (DoMain options ds (filter (constructs Construct) allRegisteredKeys) Construct) =
        Some final \<longrightarrow>
      Final (DoMain options ds allRegisteredKeys Construct) =
        Some (final\<lparr>Cerr := failures Construct allRegisteredKeys\<rparr>))"
proof -
  let ?full = "DoMain options ds allRegisteredKeys Construct"
  let ?part = "DoMain options ds (filter (constructs Construct) allRegisteredKeys) Construct"
  note f = DoMain_filter [of options ds allRegisteredKeys Construct]
  have rep: "Report ?full = Report ?part"
    by (subst f) (simp add: Let_def)
  have fin: "Final ?full =
      map_option (\<lambda>d. d\<lparr>Cerr := failures Construct allRegisteredKeys\<rparr>) (Final ?part)"
    by (subst f) (simp add: Let_def)
  have ex: "fst (main options ds allRegisteredKeys Construct) =
      fst (main options ds (filter (constructs Construct) allRegisteredKeys) Construct)"
    by (simp add: main_def Let_def rep split: option.splits)
  have a: "modules final = constructed Construct allRegisteredKeys \<and>
      Cerr final = failures Construct allRegisteredKeys \<and>
      Final ?part = Some (final\<lparr>Cerr := []\<rparr>)"
    if full: "Final ?full = Some final" for final
  proof -
    from full fin obtain d' where p: "Final ?part = Some d'"
      and e: "final = d'\<lparr>Cerr := failures Construct allRegisteredKeys\<rparr>"
      by auto
    from DoMain_Final [OF full] obtain views where
      d: "final = runRepetitions views (blockCount_of (ObjectCount ds) (clampBlockSize options ds))
              (RepetitionCount options)
              (constructModules Construct allRegisteredKeys
                 (initDriver (blockCount_of (ObjectCount ds) (clampBlockSize options ds))))"
      by blast
    have m: "modules final = constructed Construct allRegisteredKeys"
      unfolding d by (simp add: runRepetitions_modules constructModules_modules initDriver_def)
    from DoMain_Final [OF p] obtain views' where
      d': "d' = runRepetitions views' (blockCount_of (ObjectCount ds) (clampBlockSize options ds))
              (RepetitionCount options)
              (constructModules Construct (filter (constructs Construct) allRegisteredKeys)
                 (initDriver (blockCount_of (ObjectCount ds) (clampBlockSize options ds))))"
      by blast
    have "Cerr d' = []"
      unfolding d'
      by (simp add: runRepetitions_Cerr constructModules_Cerr failures_filter initDriver_def)
    then have "final\<lparr>Cerr := []\<rparr> = d'"
      unfolding e by (cases d') simp
    moreover from e have "Cerr final = failures Construct allRegisteredKeys" by simp
    ultimately show ?thesis using p m by simp
  qed
  have b: "Final ?full = Some (final\<lparr>Cerr := failures Construct allRegisteredKeys\<rparr>)"
    if "Final ?part = Some final" for final
    using that fin by simp
  from rep ex a b constructModules_filter [of Construct allRegisteredKeys d]
    constructModules_modules [of Construct allRegisteredKeys d]
  show ?thesis by blast
qed

theorem construction_failure_isolated_witness:
  "filter (constructs demoConstruct) [''A'', ''X'', ''C''] = [''A'', ''C''] \<and>
   (\<exists>d. Final (DoMain demoOptions demoData [''A'', ''X'', ''C''] demoConstruct) = Some d \<and>
        modules d = [demoModule ''A'' 5 5, demoModule ''C'' 3 2] \<and>
        Cerr d = [FailedToConstruct ''X'' ''unsupported model''] \<and>
        map fst (Results (results d)) = [''A'', ''C''] \<and>
        Final (DoMain demoOptions demoData [''A'', ''C''] demoConstruct) = Some (d\<lparr>Cerr := []\<rparr>)) \<and>
   Thrown (Report (DoMain demoOptions demoData [''A'', ''X'', ''C''] demoConstruct)) = None \<and>
   Report (DoMain demoOptions demoData [''A'', ''X'', ''C''] demoConstruct) =
     Report (DoMain demoOptions demoData [''A'', ''C''] demoConstruct) \<and>
   fst (main demoOptions demoData [''A'', ''X'', ''C''] demoConstruct) = 0"
proof -
  have keys: "filter (constructs demoConstruct) [''A'', ''X'', ''C''] = [''A'', ''C'']"
    by (simp add: constructs_def demoConstruct_def)
  have cons: "constructed demoConstruct [''A'', ''X'', ''C''] =
      [demoModule ''A'' 5 5, demoModule ''C'' 3 2]"
    by (simp add: constructed_def demoConstruct_def)
  have fail: "failures demoConstruct [''A'', ''X'', ''C''] =
      [FailedToConstruct ''X'' ''unsupported model'']"
    by (simp add: failures_def demoConstruct_def what_def)
  from demo_run [of "[''A'', ''X'', ''C'']"] obtain views where
    run: "DoMain demoOptions demoData [''A'', ''X'', ''C''] demoConstruct =
      \<lparr>Report = OutputResults (results
         (runRepetitions views 3 1 (constructModules demoConstruct [''A'', ''X'', ''C''] (initDriver 3)))),
       Final = Some (runRepetitions views 3 1
         (constructModules demoConstruct [''A'', ''X'', ''C''] (initDriver 3))),
       Views = Some views\<rparr>"
    by blast
  let ?d = "runRepetitions views 3 1 (constructModules demoConstruct [''A'', ''X'', ''C''] (initDriver 3))"
  have fin: "Final (DoMain demoOptions demoData [''A'', ''X'', ''C''] demoConstruct) = Some ?d"
    by (simp add: run)
  have thrown: "Thrown (Report (DoMain demoOptions demoData [''A'', ''X'', ''C''] demoConstruct)) = None"
    by (simp add: run run_AXC output_AC)
  have names: "map fst (Results (results ?d)) = [''A'', ''C'']"
    by (simp add: run_AXC)
  note iso = construction_failure_isolated [of demoConstruct "[''A'', ''X'', ''C'']" "initDriver 3"
      demoOptions demoData, unfolded keys cons fail]
  from iso have "\<forall>final. Final (DoMain demoOptions demoData [''A'', ''X'', ''C''] demoConstruct) = Some final \<longrightarrow>
      modules final = [demoModule ''A'' 5 5, demoModule ''C'' 3 2] \<and>
      Cerr final = [FailedToConstruct ''X'' ''unsupported model''] \<and>
      Final (DoMain demoOptions demoData [''A'', ''C''] demoConstruct) = Some (final\<lparr>Cerr := []\<rparr>)"
    by (elim conjE)
  with fin have parts:
    "modules ?d = [demoModule ''A'' 5 5, demoModule ''C'' 3 2] \<and>
     Cerr ?d = [FailedToConstruct ''X'' ''unsupported model''] \<and>
     Final (DoMain demoOptions demoData [''A'', ''C''] demoConstruct) = Some (?d\<lparr>Cerr := []\<rparr>)"
    by (elim allE [of _ ?d] impE)
  from iso have rep:
    "Report (DoMain demoOptions demoData [''A'', ''X'', ''C''] demoConstruct) =
       Report (DoMain demoOptions demoData [''A'', ''C''] demoConstruct)"
    by (elim conjE)
  have exit: "fst (main demoOptions demoData [''A'', ''X'', ''C''] demoConstruct) = 0"
    using thrown by (simp add: main_def Let_def)
  have ex: "\<exists>d. Final (DoMain demoOptions demoData [''A'', ''X'', ''C''] demoConstruct) = Some d \<and>
        modules d = [demoModule ''A'' 5 5, demoModule ''C'' 3 2] \<and>
        Cerr d = [FailedToConstruct ''X'' ''unsupported model''] \<and>
        map fst (Results (results d)) = [''A'', ''C''] \<and>
        Final (DoMain demoOptions demoData [''A'', ''C''] demoConstruct) = Some (d\<lparr>Cerr := []\<rparr>)"
    using fin parts names by (intro exI [of _ ?d]) (elim conjE, intro conjI)
  show ?thesis
    by (rule conjI [OF keys conjI [OF ex conjI [OF thrown conjI [OF rep exit]]]])
qed

text \<open>
  Claim C7 as stated fails in that a part of the console report is produced: the header
  line and the line with the baseline name are logged before the lookup of the
  baseline throws. The module \<open>T\<close> has its highest priority for the features-first
  layout, and no sample is filed under that name.
\<close>

theorem report_begun_before_lookup_fails:
  "Report (DoMain demoOptions demoData [''T''] demoConstruct) =
     \<lparr>Thrown = Some (KeyNotFound ''T_transposed''),
      InfoLog = [Header, NameLine ''T_transposed''], ResultsFile = None\<rparr> \<and>
   InfoLog (Report (DoMain demoOptions demoData [''T''] demoConstruct)) \<noteq> []"
proof -
  have "OutputResults \<lparr>Results = [(''T'', \<lparr>Times = [1, 2, 3, 4, 5, 6]\<rparr>)],
                        BaseResultName = ''T_transposed''\<rparr> =
          \<lparr>Thrown = Some (KeyNotFound ''T_transposed''),
           InfoLog = [Header, NameLine ''T_transposed''], ResultsFile = None\<rparr>"
    by (simp add: OutputResults_def)
  with demo_run [of "[''T'']"] show ?thesis
    by (auto simp: run_T)
qed

text \<open>
  Claim C7, amended. When the baseline name is not empty and is not a key of the
  results, \<open>OutputResults\<close> throws at the lookup of the baseline: of the report only
  the header line and the line with the baseline name have been logged, no statistics
  are rendered and \<open>results.json\<close> is not written. In a run that reaches the report
  in such a state, \<open>main\<close> prints the message of the exception and returns \<open>-1\<close>.
\<close>

theorem missing_baseline_is_fatal:
  assumes set: "BaseResultName r \<noteq> []" and missing: "BaseResultName r \<notin> fst ` set (Results r)"
  shows "OutputResults r =
           \<lparr>Thrown = Some (KeyNotFound (BaseResultName r)),
            InfoLog = [Header, NameLine (BaseResultName r)], ResultsFile = None\<rparr> \<and>
         (\<forall>options ds allRegisteredKeys Construct d.
            Final (DoMain options ds allRegisteredKeys Construct) = Some d \<longrightarrow> results d = r \<longrightarrow>
              Report (DoMain options ds allRegisteredKeys Construct) =
                \<lparr>Thrown = Some (KeyNotFound (BaseResultName r)),
                 InfoLog = [Header, NameLine (BaseResultName r)], ResultsFile = None\<rparr> \<and>
              main options ds allRegisteredKeys Construct =
                (- 1, Cerr d @ [ExceptionMessage (KeyNotFound (BaseResultName r))]))"
proof -
  from missing have "map_of (Results r) (BaseResultName r) = None"
    by (simp add: map_of_eq_None_iff)
  with set have out: "OutputResults r =
      \<lparr>Thrown = Some (KeyNotFound (BaseResultName r)),
       InfoLog = [Header, NameLine (BaseResultName r)], ResultsFile = None\<rparr>"
    by (simp add: OutputResults_def)
  have "Report (DoMain options ds allRegisteredKeys Construct) =
          \<lparr>Thrown = Some (KeyNotFound (BaseResultName r)),
           InfoLog = [Header, NameLine (BaseResultName r)], ResultsFile = None\<rparr> \<and>
        main options ds allRegisteredKeys Construct =
          (- 1, Cerr d @ [ExceptionMessage (KeyNotFound (BaseResultName r))])"
    if fin: "Final (DoMain options ds allRegisteredKeys Construct) = Some d" and r: "results d = r"
    for options ds allRegisteredKeys Construct d
  proof -
    from DoMain_Final [OF fin] r out
    have rep: "Report (DoMain options ds allRegisteredKeys Construct) =
        \<lparr>Thrown = Some (KeyNotFound (BaseResultName r)),
         InfoLog = [Header, NameLine (BaseResultName r)], ResultsFile = None\<rparr>"
      by auto
    with fin show ?thesis by (simp add: main_def Let_def)
  qed
  with out show ?thesis by blast
qed

theorem missing_baseline_is_fatal_witness:
  "\<exists>d. Final (DoMain demoOptions demoData [''T''] demoConstruct) = Some d \<and>
       BaseResultName (results d) = ''T_transposed'' \<and>
       map fst (Results (results d)) = [''T''] \<and>
       Report (DoMain demoOptions demoData [''T''] demoConstruct) =
         \<lparr>Thrown = Some (KeyNotFound ''T_transposed''),
          InfoLog = [Header, NameLine ''T_transposed''], ResultsFile = None\<rparr> \<and>
       main demoOptions demoData [''T''] demoConstruct =
         (- 1, [ExceptionMessage (KeyNotFound ''T_transposed'')])"
proof -
  from demo_run [of "[''T'']"] obtain views where
    run: "DoMain demoOptions demoData [''T''] demoConstruct =
      \<lparr>Report = OutputResults (results
         (runRepetitions views 3 1 (constructModules demoConstruct [''T''] (initDriver 3)))),
       Final = Some (runRepetitions views 3 1 (constructModules demoConstruct [''T''] (initDriver 3))),
       Views = Some views\<rparr>"
    by blast
  let ?d = "runRepetitions views 3 1 (constructModules demoConstruct [''T''] (initDriver 3))"
  let ?r = "\<lparr>Results = [(''T'', \<lparr>Times = [1, 2, 3, 4, 5, 6]\<rparr>)], BaseResultName = ''T_transposed''\<rparr>"
  have fin: "Final (DoMain demoOptions demoData [''T''] demoConstruct) = Some ?d"
    by (simp add: run)
  have r: "results ?d = ?r" by (simp add: run_T)
  have h1: "BaseResultName ?r \<noteq> []" by simp
  have h2: "BaseResultName ?r \<notin> fst ` set (Results ?r)" by simp
  from missing_baseline_is_fatal [OF h1 h2] fin r
  have "Report (DoMain demoOptions demoData [''T''] demoConstruct) =
          \<lparr>Thrown = Some (KeyNotFound (BaseResultName ?r)),
           InfoLog = [Header, NameLine (BaseResultName ?r)], ResultsFile = None\<rparr> \<and>
        main demoOptions demoData [''T''] demoConstruct =
          (- 1, Cerr ?d @ [ExceptionMessage (KeyNotFound (BaseResultName ?r))])"
    by blast
  with fin r show ?thesis by (simp add: run_T)
qed

text \<open>
  Claim C8. No step of the driver changes the canon validator: not the construction of
  a module, not a timed call, not the run of one module over all blocks, not the
  repetitions. When the run reaches the report the validator is as constructed, with
  one empty reference per block, and \<open>Cerr\<close> holds no diagnostic of \<open>CheckOrSet\<close>.
\<close>

theorem canon_never_touched:
  "canonData (constructModule Construct key d) = canonData d \<and>
   canonData (timedCall name m layout view d) = canonData d \<and>
   canonData (runModule views blockCount m d) = canonData d \<and>
   canonData (runRepetitions views blockCount repetitionCount d) = canonData d \<and>
   (\<forall>final. Final (DoMain options ds allRegisteredKeys Construct) = Some final \<longrightarrow>
      canonData final = NewCanonData (blockCount_of (ObjectCount ds) (clampBlockSize options ds)) \<and>
      length (CanonResults (canonData final)) =
        unat (blockCount_of (ObjectCount ds) (clampBlockSize options ds)) \<and>
      (\<forall>ref \<in> set (CanonResults (canonData final)). ref = []) \<and>
      (\<forall>line \<in> set (Cerr final). \<exists>k msg. line = FailedToConstruct k msg))"
proof -
  have "canonData final = NewCanonData (blockCount_of (ObjectCount ds) (clampBlockSize options ds)) \<and>
      length (CanonResults (canonData final)) =
        unat (blockCount_of (ObjectCount ds) (clampBlockSize options ds)) \<and>
      (\<forall>ref \<in> set (CanonResults (canonData final)). ref = []) \<and>
      (\<forall>line \<in> set (Cerr final). \<exists>k msg. line = FailedToConstruct k msg)"
    if "Final (DoMain options ds allRegisteredKeys Construct) = Some final" for final
  proof -
    from DoMain_Final [OF that] obtain vs where
      d: "final = runRepetitions vs (blockCount_of (ObjectCount ds) (clampBlockSize options ds))
              (RepetitionCount options)
              (constructModules Construct allRegisteredKeys
                 (initDriver (blockCount_of (ObjectCount ds) (clampBlockSize options ds))))"
      by blast
    have c: "canonData final =
        NewCanonData (blockCount_of (ObjectCount ds) (clampBlockSize options ds))"
      unfolding d by (simp add: runRepetitions_canonData constructModules_canonData initDriver_def)
    have "Cerr final = failures Construct allRegisteredKeys"
      unfolding d by (simp add: runRepetitions_Cerr constructModules_Cerr initDriver_def)
    then have "\<forall>line \<in> set (Cerr final). \<exists>k msg. line = FailedToConstruct k msg"
      by (auto simp: failures_def split: sum.splits)
    with c show ?thesis by (simp add: NewCanonData_def)
  qed
  moreover have "canonData (runModule views blockCount m d) = canonData d"
    by (rule runModule_keeps) (rule timedCall_keeps)
  moreover note constructModule_canonData [of Construct key d]
    timedCall_keeps(1) [of name m layout view d]
    runRepetitions_canonData [of views blockCount repetitionCount d]
  ultimately show ?thesis by blast
qed

theorem canon_never_touched_witness:
  "\<exists>d. Final (DoMain demoOptions demoData [''A'', ''X''] demoConstruct) = Some d \<and>
       canonData d = \<lparr>CanonResults = [[], [], []]\<rparr>"
proof -
  from demo_run [of "[''A'', ''X'']"] obtain d where
    fin: "Final (DoMain demoOptions demoData [''A'', ''X''] demoConstruct) = Some d"
    by auto
  from canon_never_touched [of demoConstruct "''A''" d "''A''" "demoModule ''A'' 5 5" ObjectsFirst
      "[]" "\<lparr>nonTransposedPool = [], nonTranspFactorsRef = [], transpFactorsRef = []\<rparr>" 0 0
      demoOptions demoData "[''A'', ''X'']"] fin
  have "canonData d = NewCanonData (blockCount_of (ObjectCount demoData) (clampBlockSize demoOptions demoData))"
    by blast
  with fin show ?thesis by (simp add: demo_blockCount NewCanonData_3)
qed

text \<open>
  Claim C1, at an input where the code departs from it. One module that supports both
  layouts, with the display names \<open>A\<close> and \<open>A_transposed\<close>, one repetition and
  three blocks: the claim gives each of the two names three samples. The run files all
  six samples under \<open>A\<close>, the objects-first name, and none under
  \<open>A_transposed\<close>, because the features-first loop (line 257) passes
  \<open>GetName(ObjectsFirst)\<close> to \<open>UpdateResult\<close>.
\<close>

theorem features_first_samples_under_objects_first_name:
  "\<exists>d. Final (DoMain demoOptions demoData [''A''] demoConstruct) = Some d \<and>
       unat (RepetitionCount demoOptions) = 1 \<and>
       unat (blockCount_of (ObjectCount demoData) (clampBlockSize demoOptions demoData)) = 3 \<and>
       modules d = [demoModule ''A'' 5 5] \<and>
       SupportsLayout (demoModule ''A'' 5 5) ObjectsFirst \<and>
       SupportsLayout (demoModule ''A'' 5 5) FeaturesFirst \<and>
       GetName (demoModule ''A'' 5 5) ObjectsFirst = ''A'' \<and>
       GetName (demoModule ''A'' 5 5) FeaturesFirst = ''A_transposed'' \<and>
       map_of (Results (results d)) ''A'' = Some \<lparr>Times = [1, 2, 3, 4, 5, 6]\<rparr> \<and>
       map_of (Results (results d)) ''A_transposed'' = None"
proof -
  from demo_run [of "[''A'']"] obtain views where
    "DoMain demoOptions demoData [''A''] demoConstruct =
      \<lparr>Report = OutputResults (results
         (runRepetitions views 3 1 (constructModules demoConstruct [''A''] (initDriver 3)))),
       Final = Some (runRepetitions views 3 1 (constructModules demoConstruct [''A''] (initDriver 3))),
       Views = Some views\<rparr>"
    by blast
  then show ?thesis
    by (simp add: run_A_full demo_blockCount demo_repetitions demoModule_sel)
qed

end
